theory Spec2Isabelle
  imports Main "HOL-Library.AList" "HOL-Library.Sublist"
begin

section \<open>The WebRTC service: data model\<close>

text \<open>
  A shallow embedding of \<^verbatim>\<open>WebRTCService\<close> (the peer-connection orchestration class) and of
  the screen-share part of the \<^verbatim>\<open>useMediaStream\<close> hook that drives it.

  The class keeps JavaScript \<^verbatim>\<open>Map\<close>s keyed by peer id. A \<^verbatim>\<open>Map\<close> keeps insertion order and
  \<^verbatim>\<open>set\<close> on a present key keeps the key's position, which is what \<open>AList.update\<close> does on an
  association list; \<^verbatim>\<open>delete\<close> is \<open>AList.delete\<close> and \<^verbatim>\<open>get\<close> is \<open>map_of\<close>.

  Browser objects have identity and are shared between the registry and the closures of
  callbacks and timers, so connections live in a store (\<open>conns\<close>, indexed by handle) and the
  registry holds handles. Media tracks are referred to by kind and number; their mutable
  part (\<^verbatim>\<open>enabled\<close>, \<^verbatim>\<open>readyState\<close>) lives in \<open>trackStates\<close>.

  Every method is modelled as one step: the state after the method's promise settles. What
  the browser decides (whether a description is accepted, what a native call answers) is a
  parameter of the step. Console output is not part of the state.
\<close>

type_synonym peer_id = string
type_synonym handle = nat
type_synonym timer_id = nat
type_synonym stream_id = string

datatype 'a js_opt = Undefined | Null | Val 'a

record ice_candidate =
  candidate :: "string js_opt"
  sdpMLineIndex :: "nat js_opt"
  sdpMid :: "string js_opt"
  usernameFragment :: "string js_opt"

datatype sd_type = Offer | Answer

record session_description =
  sdType :: sd_type
  sdp :: string

datatype signaling_state =
  Stable | HaveLocalOffer | HaveRemoteOffer | HaveLocalPranswer | HaveRemotePranswer | SigClosed

datatype connection_state = CNew | Connecting | Connected | Disconnected | Failed | CClosed

datatype ice_connection_state =
  IceNew | Checking | IceConnected | Completed | IceFailed | IceDisconnected | IceClosed

datatype track_kind = Audio | Video

datatype ready_state = Live | Ended

type_synonym track_ref = "track_kind \<times> nat"

record track_state =
  enabled :: bool
  readyState :: ready_state

datatype direction = SendRecv | SendOnly | RecvOnly | Inactive

record transceiver =
  receiverKind :: track_kind
  direction :: direction
  senderTrack :: "track_ref option"

text \<open>
  One \<^verbatim>\<open>RTCPeerConnection\<close> together with the two closure variables of
  \<^verbatim>\<open>createPeerConnection\<close> that its callbacks read: \<^verbatim>\<open>peerId\<close> and the pending
  \<^verbatim>\<open>connectionTimeout\<close>. The three counters record the native calls made on the connection.
\<close>

record rtc_pc =
  closurePeer :: peer_id
  signalingState :: signaling_state
  connectionState :: connection_state
  iceConnectionState :: ice_connection_state
  remoteDescription :: "session_description option"
  transceivers :: "transceiver list"
  addIceCalls :: "ice_candidate list"
  restartIceCalls :: nat
  getStatsCalls :: nat
  connectionTimeoutPending :: bool

record audio_el =
  elId :: string
  srcObject :: "stream_id option"
  muted :: bool
  volumePercent :: nat

datatype message =
  IceMsg string string peer_id ice_candidate
  | OfferMsg string string peer_id session_description bool

record service =
  isFirefox :: bool
  conns :: "rtc_pc list"
  peerConnections :: "(peer_id \<times> handle) list"
  localStream :: "track_ref list option"
  screenStream :: "track_ref list option"
  trackStates :: "track_state list"
  dataChannels :: "(peer_id \<times> nat) list"
  closedChannels :: "nat list"
  myAddress :: string
  currentStreamId :: string
  myClientId :: string
  serverClientId :: string
  onMessageCallback :: bool
  sentMessages :: "message list"
  onStreamCallback :: bool
  streamEvents :: "(peer_id \<times> stream_id) list"
  onPeerStateCallback :: bool
  peerStateEvents :: "(peer_id \<times> connection_state) list"
  healthCheckIntervals :: "(peer_id \<times> timer_id) list"
  activeIntervals :: "(timer_id \<times> handle) list"
  nextTimer :: timer_id
  queuedIceCandidates :: "(peer_id \<times> ice_candidate list) list"
  processedCandidates :: "(peer_id \<times> string list) list"
  viewerAudioTracks :: "(peer_id \<times> track_ref) list"
  viewerAudioElements :: "(peer_id \<times> audio_el) list"
  documentBody :: "string list"
  iceRetryTimers :: "(handle \<times> ice_candidate) list"

datatype error =
  PeerConnectionNotFound
  | ConnectionClosed
  | WrongSignalingState signaling_state
  | NativeError

definition initial :: "bool \<Rightarrow> service" where
  "initial ff =
     \<lparr> isFirefox = ff, conns = [], peerConnections = [], localStream = None,
       screenStream = None, trackStates = [], dataChannels = [], closedChannels = [],
       myAddress = [], currentStreamId = [], myClientId = [], serverClientId = [],
       onMessageCallback = False, sentMessages = [], onStreamCallback = False,
       streamEvents = [], onPeerStateCallback = False, peerStateEvents = [],
       healthCheckIntervals = [], activeIntervals = [], nextTimer = 0,
       queuedIceCandidates = [], processedCandidates = [], viewerAudioTracks = [],
       viewerAudioElements = [], documentBody = [], iceRetryTimers = [] \<rparr>"

text \<open>
  \<^verbatim>\<open>this.peerConnections.get(peerId)\<close>: the handle and the connection it names. A handle of
  the registry always names a stored connection; a dangling one is read as a missing entry.
\<close>

definition connAt :: "service \<Rightarrow> handle \<Rightarrow> rtc_pc option" where
  "connAt s h = (if h < length (conns s) then Some (conns s ! h) else None)"

definition getPc :: "service \<Rightarrow> peer_id \<Rightarrow> (handle \<times> rtc_pc) option" where
  "getPc s peerId =
     (case map_of (peerConnections s) peerId of
        None \<Rightarrow> None
      | Some h \<Rightarrow> (case connAt s h of None \<Rightarrow> None | Some pc \<Rightarrow> Some (h, pc)))"

definition setConn :: "handle \<Rightarrow> rtc_pc \<Rightarrow> service \<Rightarrow> service" where
  "setConn h pc s = s\<lparr>conns := (conns s)[h := pc]\<rparr>"

section \<open>ICE candidates: fingerprint, queue, flush\<close>

fun show_nat :: "nat \<Rightarrow> string" where
  "show_nat n =
     (if n < 10 then [''0123456789'' ! n]
      else show_nat (n div 10) @ [''0123456789'' ! (n mod 10)])"

declare show_nat.simps [simp del]

text \<open>
  What a template literal prints for an optional field. \<^verbatim>\<open>sdpMLineIndex\<close> is the index of a
  media line, a natural number (an unsigned 16-bit number in the browser's interface); it is
  printed in decimal digits, as the template literal prints every integer below ten to the
  power 21.
\<close>

definition tmplStr :: "string js_opt \<Rightarrow> string" where
  "tmplStr x = (case x of Undefined \<Rightarrow> ''undefined'' | Null \<Rightarrow> ''null'' | Val v \<Rightarrow> v)"

definition tmplNat :: "nat js_opt \<Rightarrow> string" where
  "tmplNat x = (case x of Undefined \<Rightarrow> ''undefined'' | Null \<Rightarrow> ''null'' | Val n \<Rightarrow> show_nat n)"

definition truthyStr :: "string js_opt \<Rightarrow> bool" where
  "truthyStr x = (case x of Val v \<Rightarrow> v \<noteq> [] | _ \<Rightarrow> False)"

definition candidateFingerprint :: "ice_candidate \<Rightarrow> string" where
  "candidateFingerprint c =
     (if truthyStr (candidate c)
      then tmplStr (candidate c) @ '':'' @ tmplNat (sdpMLineIndex c) @ '':'' @ tmplStr (sdpMid c)
      else ''null-candidate'')"

text \<open>The deduplication key as the specification names it.\<close>

definition dedupKey :: "ice_candidate \<Rightarrow> string js_opt \<times> nat js_opt \<times> string js_opt" where
  "dedupKey c = (candidate c, sdpMLineIndex c, sdpMid c)"

subsection \<open>\<^verbatim>\<open>isValidFirefoxCandidate\<close>\<close>

fun splitOn :: "char \<Rightarrow> string \<Rightarrow> string list" where
  "splitOn d [] = [[]]"
| "splitOn d (x # xs) =
     (if x = d then [] # splitOn d xs
      else (case splitOn d xs of [] \<Rightarrow> [[x]] | p # ps \<Rightarrow> (x # p) # ps))"

text \<open>
  A string is a list of 8-bit characters, read as the code units U+0000 to U+00FF. The white
  space that \<^verbatim>\<open>parseInt\<close> skips is, among these, tab, line feed, vertical tab, form feed,
  carriage return, space and the no-break space U+00A0.
\<close>

definition isWhite :: "char \<Rightarrow> bool" where
  "isWhite ch = (of_char ch \<in> {9, 10, 11, 12, 13, 32, 160 :: nat})"

definition isDigit :: "char \<Rightarrow> bool" where
  "isDigit ch = (48 \<le> (of_char ch :: nat) \<and> (of_char ch :: nat) \<le> 57)"

definition isHexDigit :: "char \<Rightarrow> bool" where
  "isHexDigit ch =
     (isDigit ch \<or> (65 \<le> (of_char ch :: nat) \<and> (of_char ch :: nat) \<le> 70)
        \<or> (97 \<le> (of_char ch :: nat) \<and> (of_char ch :: nat) \<le> 102))"

text \<open>
  \<^verbatim>\<open>!isNaN(parseInt(x))\<close>: after leading white space and an optional sign, a hexadecimal
  prefix followed by a hexadecimal digit, or else a decimal digit.
\<close>

definition parsesAsInt :: "string \<Rightarrow> bool" where
  "parsesAsInt x =
     (let t = dropWhile isWhite x;
          u = (case t of ch # r \<Rightarrow> (if ch = CHR ''+'' \<or> ch = CHR ''-'' then r else t) | [] \<Rightarrow> t)
      in case u of
           z # xch # r \<Rightarrow>
             (if z = CHR ''0'' \<and> (xch = CHR ''x'' \<or> xch = CHR ''X'')
              then (case r of [] \<Rightarrow> False | hch # _ \<Rightarrow> isHexDigit hch)
              else isDigit z)
         | [z] \<Rightarrow> isDigit z
         | [] \<Rightarrow> False)"

definition isValidFirefoxCandidate :: "string \<Rightarrow> bool" where
  "isValidFirefoxCandidate cand =
     (let parts = splitOn CHR '' '' cand
      in if length parts < 8 then False
         else parts ! 0 \<noteq> []
            \<and> (parts ! 1 \<noteq> [] \<and> parsesAsInt (parts ! 1))
            \<and> (parts ! 2 \<noteq> [] \<and> (parts ! 2 = ''UDP'' \<or> parts ! 2 = ''TCP''))
            \<and> (parts ! 3 \<noteq> [] \<and> parsesAsInt (parts ! 3))
            \<and> parts ! 4 \<noteq> []
            \<and> (parts ! 5 \<noteq> [] \<and> parsesAsInt (parts ! 5))
            \<and> parts ! 6 = ''typ''
            \<and> (parts ! 7 \<noteq> [] \<and> parts ! 7 \<in> set [''host'', ''srflx'', ''prflx'', ''relay'']))"

subsection \<open>\<^verbatim>\<open>addIceCandidate\<close> and \<^verbatim>\<open>processQueuedIceCandidates\<close>\<close>

text \<open>What the native \<^verbatim>\<open>pc.addIceCandidate\<close> answers; the call is recorded either way.\<close>

datatype apply_outcome = Applied | InvalidStateError | OtherError

definition nativeAddIce :: "ice_candidate \<Rightarrow> rtc_pc \<Rightarrow> rtc_pc" where
  "nativeAddIce c pc = pc\<lparr>addIceCalls := addIceCalls pc @ [c]\<rparr>"

definition getOr :: "'b \<Rightarrow> ('a \<times> 'b) list \<Rightarrow> 'a \<Rightarrow> 'b" where
  "getOr d al k = (case map_of al k of None \<Rightarrow> d | Some v \<Rightarrow> v)"

definition addIceCandidate ::
  "peer_id \<Rightarrow> ice_candidate \<Rightarrow> apply_outcome \<Rightarrow> service \<Rightarrow> service" where
  "addIceCandidate peerId c outcome s =
     (case getPc s peerId of
        None \<Rightarrow> s
      | Some (h, pc) \<Rightarrow>
          (let fp = candidateFingerprint c;
               s1 = (if map_of (processedCandidates s) peerId = None
                     then s\<lparr>processedCandidates := AList.update peerId [] (processedCandidates s)\<rparr>
                     else s);
               processedSet = getOr [] (processedCandidates s1) peerId
           in if fp \<in> set processedSet then s1
              else
                (let s2 = s1\<lparr>processedCandidates :=
                              AList.update peerId (processedSet @ [fp]) (processedCandidates s1)\<rparr>
                 in if remoteDescription pc = None
                    then
                      (let s3 = (if map_of (queuedIceCandidates s2) peerId = None
                                 then s2\<lparr>queuedIceCandidates :=
                                          AList.update peerId [] (queuedIceCandidates s2)\<rparr>
                                 else s2)
                       in s3\<lparr>queuedIceCandidates :=
                              AList.update peerId
                                (getOr [] (queuedIceCandidates s3) peerId @ [c])
                                (queuedIceCandidates s3)\<rparr>)
                    else if isFirefox s2 \<and> truthyStr (candidate c)
                            \<and> \<not> isValidFirefoxCandidate (tmplStr (candidate c))
                    then s2
                    else
                      (let s4 = setConn h (nativeAddIce c pc) s2
                       in if outcome = InvalidStateError \<and> isFirefox s4
                          then s4\<lparr>iceRetryTimers := iceRetryTimers s4 @ [(h, c)]\<rparr>
                          else s4))))"

definition processQueuedIceCandidates :: "peer_id \<Rightarrow> service \<Rightarrow> service" where
  "processQueuedIceCandidates peerId s =
     (case map_of (queuedIceCandidates s) peerId of
        None \<Rightarrow> s
      | Some queued \<Rightarrow>
          if queued = [] then s
          else
            (case getPc s peerId of
               None \<Rightarrow> s
             | Some (h, pc) \<Rightarrow>
                 if remoteDescription pc = None then s
                 else (setConn h (fold nativeAddIce queued pc) s)
                        \<lparr>queuedIceCandidates := AList.delete peerId (queuedIceCandidates s)\<rparr>))"

text \<open>A run of deliveries for one peer, each with the answer its native call would get.\<close>

definition deliverAll :: "peer_id \<Rightarrow> (ice_candidate \<times> apply_outcome) list \<Rightarrow> service \<Rightarrow> service" where
  "deliverAll peerId cos s = fold (\<lambda>(c, outcome). addIceCandidate peerId c outcome) cos s"

text \<open>
  The candidates of a run that are not dropped as repeats: those whose fingerprint is neither
  in \<open>seen\<close> nor carried by an earlier candidate of the run.
\<close>

fun firstSeen :: "string list \<Rightarrow> ice_candidate list \<Rightarrow> ice_candidate list" where
  "firstSeen seen [] = []"
| "firstSeen seen (c # cs) =
     (if candidateFingerprint c \<in> set seen then firstSeen seen cs
      else c # firstSeen (seen @ [candidateFingerprint c]) cs)"

section \<open>Offer and answer\<close>

text \<open>
  The browser's \<^verbatim>\<open>setRemoteDescription\<close>: \<open>accepted\<close> says whether the browser takes the
  description; the signalling state must allow its type.
\<close>

definition setRemoteDescription ::
  "bool \<Rightarrow> session_description \<Rightarrow> rtc_pc \<Rightarrow> rtc_pc option" where
  "setRemoteDescription accepted d pc =
     (if \<not> accepted then None
      else
        (case sdType d of
           Offer \<Rightarrow>
             if signalingState pc \<in> {Stable, HaveLocalOffer, HaveRemoteOffer}
             then Some (pc\<lparr>remoteDescription := Some d, signalingState := HaveRemoteOffer\<rparr>)
             else None
         | Answer \<Rightarrow>
             if signalingState pc \<in> {HaveLocalOffer, HaveRemotePranswer}
             then Some (pc\<lparr>remoteDescription := Some d, signalingState := Stable\<rparr>)
             else None))"

text \<open>
  \<^verbatim>\<open>pc.createAnswer()\<close> followed by \<^verbatim>\<open>pc.setLocalDescription(answer)\<close>: \<open>made\<close> is the answer
  the browser produces, if any; it needs a remote offer to answer.
\<close>

definition createAndSetLocalAnswer ::
  "session_description option \<Rightarrow> rtc_pc \<Rightarrow> (session_description \<times> rtc_pc) option" where
  "createAndSetLocalAnswer made pc =
     (case made of
        None \<Rightarrow> None
      | Some a \<Rightarrow>
          if signalingState pc \<in> {HaveRemoteOffer, HaveLocalPranswer}
          then Some (a, pc\<lparr>signalingState := Stable\<rparr>)
          else None)"

text \<open>
  \<^verbatim>\<open>pc.createOffer()\<close> followed by \<^verbatim>\<open>pc.setLocalDescription(offer)\<close>.
\<close>

definition createAndSetLocalOffer ::
  "session_description option \<Rightarrow> rtc_pc \<Rightarrow> (session_description \<times> rtc_pc) option" where
  "createAndSetLocalOffer made pc =
     (case made of
        None \<Rightarrow> None
      | Some off \<Rightarrow>
          if signalingState pc \<in> {Stable, HaveLocalOffer}
          then Some (off, pc\<lparr>signalingState := HaveLocalOffer\<rparr>)
          else None)"

text \<open>
  A method's result: \<open>Inl e\<close> when it throws, \<open>Inr v\<close> when it returns, paired with the state
  it leaves behind.
\<close>

definition handleAnswer ::
  "peer_id \<Rightarrow> session_description \<Rightarrow> bool \<Rightarrow> service \<Rightarrow> (error + unit) \<times> service" where
  "handleAnswer peerId answer accepted s =
     (case getPc s peerId of
        None \<Rightarrow> (Inl PeerConnectionNotFound, s)
      | Some (h, pc) \<Rightarrow>
          if signalingState pc \<noteq> HaveLocalOffer
          then
            (if signalingState pc = Stable then (Inr (), s)
             else if signalingState pc = SigClosed then (Inr (), s)
             else (Inl (WrongSignalingState (signalingState pc)), s))
          else
            (case setRemoteDescription accepted answer pc of
               None \<Rightarrow> (Inl NativeError, s)
             | Some pc' \<Rightarrow> (Inr (), processQueuedIceCandidates peerId (setConn h pc' s))))"

definition createAnswer ::
  "peer_id \<Rightarrow> session_description \<Rightarrow> bool \<Rightarrow> session_description option \<Rightarrow> service
     \<Rightarrow> (error + session_description) \<times> service" where
  "createAnswer peerId offer accepted made s =
     (case getPc s peerId of
        None \<Rightarrow> (Inl PeerConnectionNotFound, s)
      | Some (h, pc) \<Rightarrow>
          if (if signalingState pc \<noteq> Stable \<and> signalingState pc \<noteq> HaveLocalOffer
              then (if signalingState pc = HaveRemoteOffer then False
                    else signalingState pc = SigClosed)
              else False)
          then (Inl ConnectionClosed, s)
          else
            (let r = (if signalingState pc = Stable \<or> signalingState pc = HaveLocalOffer
                      then (case setRemoteDescription accepted offer pc of
                              None \<Rightarrow> None
                            | Some pc' \<Rightarrow>
                                Some (processQueuedIceCandidates peerId (setConn h pc' s)))
                      else Some s)
             in case r of
                  None \<Rightarrow> (Inl NativeError, s)
                | Some s1 \<Rightarrow>
                    (case connAt s1 h of
                       None \<Rightarrow> (Inl NativeError, s1)
                     | Some pc1 \<Rightarrow>
                         (case createAndSetLocalAnswer made pc1 of
                            None \<Rightarrow> (Inl NativeError, s1)
                          | Some (a, pc2) \<Rightarrow> (Inr a, setConn h pc2 s1)))))"

section \<open>Native connection operations\<close>

definition newPc :: "peer_id \<Rightarrow> rtc_pc" where
  "newPc peerId =
     \<lparr> closurePeer = peerId, signalingState = Stable, connectionState = CNew,
       iceConnectionState = IceNew, remoteDescription = None, transceivers = [],
       addIceCalls = [], restartIceCalls = 0, getStatsCalls = 0,
       connectionTimeoutPending = True \<rparr>"

definition pcClose :: "rtc_pc \<Rightarrow> rtc_pc" where
  "pcClose pc =
     pc\<lparr>signalingState := SigClosed, connectionState := CClosed, iceConnectionState := IceClosed\<rparr>"

definition isClosed :: "rtc_pc \<Rightarrow> bool" where
  "isClosed pc = (signalingState pc = SigClosed)"

definition pcGetStats :: "rtc_pc \<Rightarrow> rtc_pc" where
  "pcGetStats pc = pc\<lparr>getStatsCalls := Suc (getStatsCalls pc)\<rparr>"

fun updFirst :: "('a \<Rightarrow> bool) \<Rightarrow> ('a \<Rightarrow> 'a) \<Rightarrow> 'a list \<Rightarrow> 'a list" where
  "updFirst P f [] = []"
| "updFirst P f (x # xs) = (if P x then f x # xs else x # updFirst P f xs)"

definition firstOf :: "'a list \<Rightarrow> 'a option" where
  "firstOf xs = (case xs of [] \<Rightarrow> None | x # _ \<Rightarrow> Some x)"

text \<open>
  \<^verbatim>\<open>pc.addTrack\<close>: refused on a closed connection and for a track some sender already
  carries; otherwise the track goes to a transceiver of its kind whose sender is free, or to
  a new \<^verbatim>\<open>sendrecv\<close> transceiver.
\<close>

definition pcAddTrack :: "track_ref \<Rightarrow> rtc_pc \<Rightarrow> rtc_pc option" where
  "pcAddTrack t pc =
     (let free = (\<lambda>tr. senderTrack tr = None \<and> receiverKind tr = fst t)
      in if isClosed pc then None
         else if Some t \<in> set (map senderTrack (transceivers pc)) then None
         else if find free (transceivers pc) \<noteq> None
         then Some (pc\<lparr>transceivers :=
                 updFirst free
                   (\<lambda>tr. tr\<lparr>senderTrack := Some t,
                            direction := (case direction tr of
                                            RecvOnly \<Rightarrow> SendRecv
                                          | Inactive \<Rightarrow> SendOnly
                                          | d \<Rightarrow> d)\<rparr>)
                   (transceivers pc)\<rparr>)
         else Some (pc\<lparr>transceivers := transceivers pc
                 @ [\<lparr>receiverKind = fst t, direction = SendRecv, senderTrack = Some t\<rparr>]\<rparr>))"

definition pcAddTransceiver :: "track_kind \<Rightarrow> direction \<Rightarrow> rtc_pc \<Rightarrow> rtc_pc" where
  "pcAddTransceiver k d pc =
     pc\<lparr>transceivers := transceivers pc
           @ [\<lparr>receiverKind = k, direction = d, senderTrack = None\<rparr>]\<rparr>"

text \<open>
  \<^verbatim>\<open>sender.replaceTrack\<close> on the first transceiver that satisfies \<open>P\<close>: rejected on a closed
  connection and for a track of another kind than the transceiver's.
\<close>

definition senderReplaceTrack ::
  "(transceiver \<Rightarrow> bool) \<Rightarrow> track_ref \<Rightarrow> rtc_pc \<Rightarrow> rtc_pc option" where
  "senderReplaceTrack P t pc =
     (if isClosed pc then None
      else
        (case find P (transceivers pc) of
           None \<Rightarrow> None
         | Some tr \<Rightarrow>
             if receiverKind tr \<noteq> fst t then None
             else Some (pc\<lparr>transceivers :=
                     updFirst P (\<lambda>x. x\<lparr>senderTrack := Some t\<rparr>) (transceivers pc)\<rparr>)))"

text \<open>
  \<^verbatim>\<open>pc.removeTrack(sender)\<close> on the first transceiver that satisfies \<open>P\<close>: the sender loses
  its track and stops sending.
\<close>

definition pcRemoveTrack :: "(transceiver \<Rightarrow> bool) \<Rightarrow> rtc_pc \<Rightarrow> rtc_pc option" where
  "pcRemoveTrack P pc =
     (if isClosed pc then None
      else Some (pc\<lparr>transceivers :=
              updFirst P
                (\<lambda>x. x\<lparr>senderTrack := None,
                       direction := (case direction x of
                                       SendRecv \<Rightarrow> RecvOnly
                                     | SendOnly \<Rightarrow> Inactive
                                     | d \<Rightarrow> d)\<rparr>)
                (transceivers pc)\<rparr>))"

section \<open>Tracks and streams\<close>

definition getVideoTracks :: "track_ref list \<Rightarrow> track_ref list" where
  "getVideoTracks st = filter (\<lambda>r. fst r = Video) st"

definition getAudioTracks :: "track_ref list \<Rightarrow> track_ref list" where
  "getAudioTracks st = filter (\<lambda>r. fst r = Audio) st"

definition updTrack :: "track_ref \<Rightarrow> (track_state \<Rightarrow> track_state) \<Rightarrow> service \<Rightarrow> service" where
  "updTrack r f s =
     (if snd r < length (trackStates s)
      then s\<lparr>trackStates := (trackStates s)[snd r := f (trackStates s ! snd r)]\<rparr>
      else s)"

definition setEnabled :: "bool \<Rightarrow> track_ref \<Rightarrow> service \<Rightarrow> service" where
  "setEnabled b r s = updTrack r (\<lambda>t. t\<lparr>enabled := b\<rparr>) s"

definition stopTrack :: "track_ref \<Rightarrow> service \<Rightarrow> service" where
  "stopTrack r s = updTrack r (\<lambda>t. t\<lparr>readyState := Ended\<rparr>) s"

definition isLive :: "service \<Rightarrow> track_ref \<Rightarrow> bool" where
  "isLive s r = (snd r < length (trackStates s) \<and> readyState (trackStates s ! snd r) = Live)"

text \<open>
  What \<^verbatim>\<open>getUserMedia\<close> and \<^verbatim>\<open>getDisplayMedia\<close> hand over: a stream of new tracks of the given
  kinds, each enabled and live.
\<close>

definition allocTracks :: "track_kind list \<Rightarrow> service \<Rightarrow> track_ref list \<times> service" where
  "allocTracks kinds s =
     (zip kinds [length (trackStates s) ..< length (trackStates s) + length kinds],
      s\<lparr>trackStates := trackStates s
           @ replicate (length kinds) \<lparr>enabled = True, readyState = Live\<rparr>\<rparr>)"

section \<open>The registry: \<^verbatim>\<open>createPeerConnection\<close> and \<^verbatim>\<open>removePeer\<close>\<close>

text \<open>
  The diagnostic timers of \<^verbatim>\<open>createPeerConnection\<close> that only read and print are left out.
  The method has no check for an entry already registered under \<open>peerId\<close> (its comment leaves
  that to the caller): it ends with \<^verbatim>\<open>this.peerConnections.set(peerId, pc)\<close>.
\<close>

definition createPeerConnection ::
  "peer_id \<Rightarrow> bool \<Rightarrow> service \<Rightarrow> (error + handle) \<times> service" where
  "createPeerConnection peerId isInitiator s =
     (let pc0 = newPc peerId;
          r = (case localStream s of
                 Some ls \<Rightarrow>
                   (let activeVideoTrack =
                          (case screenStream s of
                             Some ss \<Rightarrow> firstOf (getVideoTracks ss)
                           | None \<Rightarrow> firstOf (getVideoTracks ls));
                        audioTrack = firstOf (getAudioTracks ls);
                        r1 = (case audioTrack of
                                None \<Rightarrow> (s, Some pc0)
                              | Some a \<Rightarrow> (setEnabled True a s, pcAddTrack a pc0))
                    in case snd r1 of
                         None \<Rightarrow> r1
                       | Some pc1 \<Rightarrow>
                           (case activeVideoTrack of
                              None \<Rightarrow> r1
                            | Some v \<Rightarrow> (setEnabled True v (fst r1), pcAddTrack v pc1)))
               | None \<Rightarrow>
                   (s, Some (if \<not> isInitiator
                             then pcAddTransceiver Video RecvOnly
                                    (pcAddTransceiver Audio SendRecv pc0)
                             else pc0)))
      in case snd r of
           None \<Rightarrow> (Inl NativeError, fst r)
         | Some pc \<Rightarrow>
             (Inr (length (conns (fst r))),
              (fst r)\<lparr>conns := conns (fst r) @ [pc],
                       peerConnections :=
                         AList.update peerId (length (conns (fst r)))
                           (peerConnections (fst r))\<rparr>))"

text \<open>
  Timer ids are positive integers and the stored objects are never falsy, so each
  \<^verbatim>\<open>if (x)\<close> of \<^verbatim>\<open>removePeer\<close> is the test that the map has the entry.
\<close>

definition closePeerConnection :: "peer_id \<Rightarrow> service \<Rightarrow> service" where
  "closePeerConnection peerId s =
     (case map_of (peerConnections s) peerId of
        Some h \<Rightarrow>
          (case connAt s h of
             Some pc \<Rightarrow> setConn h (pcClose pc) s
           | None \<Rightarrow> s)
          \<lparr>peerConnections := AList.delete peerId (peerConnections s)\<rparr>
      | None \<Rightarrow> s)"

definition closeDataChannel :: "peer_id \<Rightarrow> service \<Rightarrow> service" where
  "closeDataChannel peerId s =
     (case map_of (dataChannels s) peerId of
        Some ch \<Rightarrow>
          s\<lparr>closedChannels := closedChannels s @ [ch],
            dataChannels := AList.delete peerId (dataChannels s)\<rparr>
      | None \<Rightarrow> s)"

definition clearHealthCheck :: "peer_id \<Rightarrow> service \<Rightarrow> service" where
  "clearHealthCheck peerId s =
     (case map_of (healthCheckIntervals s) peerId of
        Some t \<Rightarrow>
          s\<lparr>activeIntervals := AList.delete t (activeIntervals s),
            healthCheckIntervals := AList.delete peerId (healthCheckIntervals s)\<rparr>
      | None \<Rightarrow> s)"

definition clearQueuedCandidates :: "peer_id \<Rightarrow> service \<Rightarrow> service" where
  "clearQueuedCandidates peerId s =
     (if map_of (queuedIceCandidates s) peerId \<noteq> None
      then s\<lparr>queuedIceCandidates := AList.delete peerId (queuedIceCandidates s)\<rparr>
      else s)"

definition clearProcessedCandidates :: "peer_id \<Rightarrow> service \<Rightarrow> service" where
  "clearProcessedCandidates peerId s =
     (if map_of (processedCandidates s) peerId \<noteq> None
      then s\<lparr>processedCandidates := AList.delete peerId (processedCandidates s)\<rparr>
      else s)"

definition removeFromBody :: "audio_el \<Rightarrow> string list \<Rightarrow> string list" where
  "removeFromBody el body = (if elId el \<in> set body then remove1 (elId el) body else body)"

definition removeAudioElement :: "peer_id \<Rightarrow> service \<Rightarrow> service" where
  "removeAudioElement peerId s =
     (case map_of (viewerAudioElements s) peerId of
        Some el \<Rightarrow>
          s\<lparr>documentBody := removeFromBody el (documentBody s),
            viewerAudioElements := AList.delete peerId (viewerAudioElements s)\<rparr>
      | None \<Rightarrow> s)"

definition clearViewerAudioTrack :: "peer_id \<Rightarrow> service \<Rightarrow> service" where
  "clearViewerAudioTrack peerId s =
     (if map_of (viewerAudioTracks s) peerId \<noteq> None
      then s\<lparr>viewerAudioTracks := AList.delete peerId (viewerAudioTracks s)\<rparr>
      else s)"

text \<open>\<^verbatim>\<open>removePeer\<close> is its seven blocks, in the order of the source.\<close>

definition removePeer :: "peer_id \<Rightarrow> service \<Rightarrow> service" where
  "removePeer peerId s =
     clearViewerAudioTrack peerId
       (removeAudioElement peerId
          (clearProcessedCandidates peerId
             (clearQueuedCandidates peerId
                (clearHealthCheck peerId
                   (closeDataChannel peerId
                      (closePeerConnection peerId s))))))"

section \<open>Track replacement and screen share\<close>

definition isVideoSender :: "transceiver \<Rightarrow> bool" where
  "isVideoSender tr = (case senderTrack tr of None \<Rightarrow> False | Some r \<Rightarrow> fst r = Video)"

text \<open>
  One round of the loop of \<^verbatim>\<open>replaceVideoTrack\<close>: a rejected \<^verbatim>\<open>replaceTrack\<close> is caught and
  printed, and leaves the connection as it was.
\<close>

definition replaceConnVideo :: "track_ref \<Rightarrow> rtc_pc \<Rightarrow> rtc_pc" where
  "replaceConnVideo newTrack pc =
     (case find isVideoSender (transceivers pc) of
        None \<Rightarrow> pc
      | Some _ \<Rightarrow>
          (case senderReplaceTrack isVideoSender newTrack pc of
             None \<Rightarrow> pc
           | Some pc' \<Rightarrow> pc'))"

definition replaceVideoTrack :: "track_ref \<Rightarrow> service \<Rightarrow> service" where
  "replaceVideoTrack newTrack s =
     fold (\<lambda>(peerId, h) s'.
             case connAt s' h of
               None \<Rightarrow> s'
             | Some pc \<Rightarrow> setConn h (replaceConnVideo newTrack pc) s')
          (peerConnections s) s"

definition stopScreenShare :: "service \<Rightarrow> service" where
  "stopScreenShare s =
     (case screenStream s of
        None \<Rightarrow> s
      | Some ss \<Rightarrow>
          (let s1 = (fold stopTrack ss s)\<lparr>screenStream := None\<rparr>
           in case localStream s1 of
                None \<Rightarrow> s1
              | Some ls \<Rightarrow>
                  (case firstOf (getVideoTracks ls) of
                     None \<Rightarrow> s1
                   | Some videoTrack \<Rightarrow> replaceVideoTrack videoTrack s1)))"

definition initializeScreenShare ::
  "track_kind list option \<Rightarrow> service \<Rightarrow> (error + track_ref list) \<times> service" where
  "initializeScreenShare captured s =
     (case captured of
        None \<Rightarrow> (Inl NativeError, s)
      | Some kinds \<Rightarrow>
          (let a = allocTracks kinds s;
               s1 = (snd a)\<lparr>screenStream := Some (fst a)\<rparr>
           in case firstOf (getVideoTracks (fst a)) of
                None \<Rightarrow> (Inr (fst a), s1)
              | Some screenTrack \<Rightarrow> (Inr (fst a), replaceVideoTrack screenTrack s1)))"

definition toggleAudio :: "bool \<Rightarrow> service \<Rightarrow> service" where
  "toggleAudio en s =
     (case localStream s of
        None \<Rightarrow> s
      | Some ls \<Rightarrow> fold (setEnabled en) (getAudioTracks ls) s)"

definition toggleVideo :: "bool \<Rightarrow> service \<Rightarrow> service" where
  "toggleVideo en s =
     (case localStream s of
        None \<Rightarrow> s
      | Some ls \<Rightarrow>
          if screenStream s = None then fold (setEnabled en) (getVideoTracks ls) s else s)"

section \<open>Renegotiation and the viewer audio back-channel\<close>

text \<open>
  \<^verbatim>\<open>renegotiate\<close> has no test of the signalling state and keeps no record of an offer under
  way: each call makes an offer and hands it to the message callback.
\<close>

definition renegotiate ::
  "peer_id \<Rightarrow> session_description option \<Rightarrow> service \<Rightarrow> (error + unit) \<times> service" where
  "renegotiate peerId made s =
     (case getPc s peerId of
        None \<Rightarrow> (Inr (), s)
      | Some (h, pc) \<Rightarrow>
          (case createAndSetLocalOffer made pc of
             None \<Rightarrow> (Inl NativeError, s)
           | Some (off, pc') \<Rightarrow>
               (let s1 = setConn h pc' s
                in (Inr (),
                    if onMessageCallback s1
                    then s1\<lparr>sentMessages := sentMessages s1
                              @ [OfferMsg (currentStreamId s1) (myClientId s1) peerId off True]\<rparr>
                    else s1))))"

definition isSendingAudio :: "transceiver \<Rightarrow> bool" where
  "isSendingAudio tr =
     (receiverKind tr = Audio \<and> (direction tr = SendRecv \<or> direction tr = SendOnly))"

definition enableViewerAudio ::
  "peer_id \<Rightarrow> track_ref \<Rightarrow> session_description option \<Rightarrow> service
     \<Rightarrow> (error + unit) \<times> service" where
  "enableViewerAudio peerId audioTrack made s =
     (case getPc s peerId of
        None \<Rightarrow> (Inr (), s)
      | Some (h, pc) \<Rightarrow>
          (let s1 = s\<lparr>viewerAudioTracks :=
                        AList.update peerId audioTrack (viewerAudioTracks s)\<rparr>;
               r = (case find isSendingAudio (transceivers pc) of
                      Some tr \<Rightarrow>
                        if senderTrack tr = None
                        then senderReplaceTrack isSendingAudio audioTrack pc
                        else pcAddTrack audioTrack pc
                    | None \<Rightarrow> pcAddTrack audioTrack pc)
           in case r of
                None \<Rightarrow> (Inl NativeError, s1)
              | Some pc' \<Rightarrow> renegotiate peerId made (setConn h pc' s1)))"

definition disableViewerAudio ::
  "peer_id \<Rightarrow> session_description option \<Rightarrow> service \<Rightarrow> (error + unit) \<times> service" where
  "disableViewerAudio peerId made s =
     (case getPc s peerId of
        None \<Rightarrow> (Inr (), s)
      | Some (h, pc) \<Rightarrow>
          (case map_of (viewerAudioTracks s) peerId of
             None \<Rightarrow> (Inr (), s)
           | Some audioTrack \<Rightarrow>
               (let carries = (\<lambda>tr. senderTrack tr = Some audioTrack);
                    r = (if find carries (transceivers pc) \<noteq> None
                         then pcRemoveTrack carries pc
                         else Some pc)
                in case r of
                     None \<Rightarrow> (Inl NativeError, s)
                   | Some pc' \<Rightarrow>
                       renegotiate peerId made
                         ((stopTrack audioTrack (setConn h pc' s))
                            \<lparr>viewerAudioTracks :=
                               AList.delete peerId (viewerAudioTracks s)\<rparr>))))"

definition cleanupViewerAudioElement :: "peer_id \<Rightarrow> service \<Rightarrow> service" where
  "cleanupViewerAudioElement peerId s =
     (case map_of (viewerAudioElements s) peerId of
        None \<Rightarrow> s
      | Some el \<Rightarrow>
          s\<lparr>documentBody := removeFromBody el (documentBody s),
            viewerAudioElements := AList.delete peerId (viewerAudioElements s)\<rparr>)"

definition audioElementId :: "peer_id \<Rightarrow> string" where
  "audioElementId peerId = ''viewer-audio-'' @ peerId"

definition newAudio :: "peer_id \<Rightarrow> stream_id \<Rightarrow> audio_el" where
  "newAudio peerId st =
     \<lparr> elId = audioElementId peerId, srcObject = Some st, muted = False,
       volumePercent = 100 \<rparr>"

text \<open>
  The audio branch of \<^verbatim>\<open>pc.ontrack\<close>, followed by the stream callback. \<open>st\<close> is
  \<^verbatim>\<open>event.streams[0]\<close>.
\<close>

definition onTrack :: "peer_id \<Rightarrow> track_kind \<Rightarrow> stream_id option \<Rightarrow> service \<Rightarrow> service" where
  "onTrack peerId k st s =
     (let s1 = (if k = Audio \<and> localStream s \<noteq> None
                then
                  (case (map_of (viewerAudioElements s) peerId, st) of
                     (None, Some x) \<Rightarrow>
                       s\<lparr>documentBody := documentBody s @ [elId (newAudio peerId x)],
                         viewerAudioElements :=
                           AList.update peerId (newAudio peerId x) (viewerAudioElements s)\<rparr>
                   | (Some el, Some x) \<Rightarrow>
                       s\<lparr>viewerAudioElements :=
                           AList.update peerId
                             (el\<lparr>srcObject := Some x, muted := False, volumePercent := 100\<rparr>)
                             (viewerAudioElements s)\<rparr>
                   | _ \<Rightarrow> s)
                else s)
      in case st of
           Some x \<Rightarrow>
             if onStreamCallback s1
             then s1\<lparr>streamEvents := streamEvents s1 @ [(peerId, x)]\<rparr>
             else s1
         | None \<Rightarrow> s1)"

section \<open>Callbacks and timers\<close>

definition firstNonEmpty :: "string \<Rightarrow> string \<Rightarrow> string \<Rightarrow> string" where
  "firstNonEmpty a b c = (if a \<noteq> [] then a else if b \<noteq> [] then b else c)"

text \<open>
  \<^verbatim>\<open>pc.onconnectionstatechange\<close>, run after the browser has set \<^verbatim>\<open>pc.connectionState\<close> to
  \<open>st\<close>. Every run starts a new health-check interval and stores it under the peer id, over
  the one stored before.
\<close>

definition onConnectionStateChange :: "handle \<Rightarrow> connection_state \<Rightarrow> service \<Rightarrow> service" where
  "onConnectionStateChange h st s =
     (case connAt s h of
        None \<Rightarrow> s
      | Some pc0 \<Rightarrow>
          (let peerId = closurePeer pc0;
               pc = pc0\<lparr>connectionState := st\<rparr>;
               pc1 = (if st = Connected then pc\<lparr>connectionTimeoutPending := False\<rparr>
                      else if st = Failed then pc\<lparr>connectionTimeoutPending := False\<rparr>
                      else pc);
               t = Suc (nextTimer s);
               s1 = (setConn h pc1 s)
                      \<lparr>activeIntervals := activeIntervals s @ [(t, h)],
                       nextTimer := t,
                       healthCheckIntervals := AList.update peerId t (healthCheckIntervals s)\<rparr>;
               s2 = (if onPeerStateCallback s1
                     then s1\<lparr>peerStateEvents := peerStateEvents s1 @ [(peerId, st)]\<rparr>
                     else s1)
           in if st = Failed \<or> st = Disconnected then removePeer peerId s2 else s2))"

text \<open>One tick of a health-check interval; a cleared interval does not tick.\<close>

definition healthCheckTick :: "timer_id \<Rightarrow> service \<Rightarrow> service" where
  "healthCheckTick t s =
     (case map_of (activeIntervals s) t of
        None \<Rightarrow> s
      | Some h \<Rightarrow>
          (case connAt s h of
             None \<Rightarrow> s
           | Some pc \<Rightarrow>
               if connectionState pc = Connected then setConn h (pcGetStats pc) s
               else if connectionState pc = Failed \<or> connectionState pc = CClosed
               then s\<lparr>activeIntervals := AList.delete t (activeIntervals s)\<rparr>
               else s))"

text \<open>The \<^verbatim>\<open>connectionTimeout\<close> of \<^verbatim>\<open>createPeerConnection\<close>, 10 s (15 s on Firefox) later.\<close>

definition onConnectionTimeout :: "handle \<Rightarrow> service \<Rightarrow> service" where
  "onConnectionTimeout h s =
     (case connAt s h of
        None \<Rightarrow> s
      | Some pc \<Rightarrow>
          if \<not> connectionTimeoutPending pc then s
          else
            (let pc1 = pc\<lparr>connectionTimeoutPending := False\<rparr>
             in if connectionState pc = Connecting \<or> iceConnectionState pc = Checking
                then (if isFirefox s
                      then setConn h (pc1\<lparr>restartIceCalls := Suc (restartIceCalls pc1)\<rparr>) s
                      else setConn h pc1 s)
                else setConn h pc1 s))"

definition withConn :: "handle \<Rightarrow> (rtc_pc \<Rightarrow> rtc_pc) \<Rightarrow> service \<Rightarrow> service" where
  "withConn h f s = (case connAt s h of None \<Rightarrow> s | Some pc \<Rightarrow> setConn h (f pc) s)"

text \<open>
  The callbacks and timers the service installs that touch the state or call into the
  browser. Those that only print (track mute and end handlers, the sender and transceiver
  checks, the audio element's handlers) are left out.

  \<open>ScreenTrackEnded\<close> is the \<^verbatim>\<open>onended\<close> handler that \<^verbatim>\<open>initializeScreenShare\<close> puts on the
  screen track. A share started through \<^verbatim>\<open>useMediaStream\<close> has that handler replaced by the
  hook's own, whose call of the hook's \<^verbatim>\<open>stopScreenShare\<close> returns at once (the callback was
  made while \<^verbatim>\<open>isScreenSharing\<close> was false); the event is then no event of the service.
\<close>

datatype internal_event =
  ConnectionTimeoutFired handle
  | ConnectionStateChanged handle connection_state
  | IceConnectionStateChanged handle ice_connection_state
  | FirefoxNudgeTimerFired handle
  | StuckConnectingTimerFired handle
  | HealthCheckTick timer_id
  | TrackArrived handle track_kind "stream_id option"
  | VideoTrackUnmuted handle "stream_id option"
  | TrackStatsTimerFired handle
  | IceCandidateGathered handle "ice_candidate option"
  | DataChannelOpened handle nat
  | DataChannelClosed handle
  | IceRetryTimerFired
  | ScreenTrackEnded

fun fire :: "internal_event \<Rightarrow> service \<Rightarrow> service" where
  "fire (ConnectionTimeoutFired h) s = onConnectionTimeout h s"
| "fire (ConnectionStateChanged h st) s = onConnectionStateChange h st s"
| "fire (IceConnectionStateChanged h st) s = withConn h (\<lambda>pc. pc\<lparr>iceConnectionState := st\<rparr>) s"
| "fire (FirefoxNudgeTimerFired h) s =
     (if isFirefox s
      then withConn h (\<lambda>pc. if connectionState pc = Connecting then pcGetStats pc else pc) s
      else s)"
| "fire (StuckConnectingTimerFired h) s =
     withConn h (\<lambda>pc. if connectionState pc = Connecting then pcGetStats pc else pc) s"
| "fire (HealthCheckTick t) s = healthCheckTick t s"
| "fire (TrackArrived h k st) s =
     (case connAt s h of None \<Rightarrow> s | Some pc \<Rightarrow> onTrack (closurePeer pc) k st s)"
| "fire (VideoTrackUnmuted h st) s =
     (case (connAt s h, st) of
        (Some pc, Some x) \<Rightarrow>
          if onStreamCallback s
          then s\<lparr>streamEvents := streamEvents s @ [(closurePeer pc, x)]\<rparr>
          else s
      | _ \<Rightarrow> s)"
| "fire (TrackStatsTimerFired h) s = withConn h pcGetStats s"
| "fire (IceCandidateGathered h c) s =
     (case (connAt s h, c) of
        (Some pc, Some x) \<Rightarrow>
          if onMessageCallback s
          then s\<lparr>sentMessages := sentMessages s
                   @ [IceMsg (currentStreamId s)
                        (firstNonEmpty (serverClientId s) (myClientId s) (myAddress s))
                        (closurePeer pc) x]\<rparr>
          else s
      | _ \<Rightarrow> s)"
| "fire (DataChannelOpened h ch) s =
     (case connAt s h of
        None \<Rightarrow> s
      | Some pc \<Rightarrow> s\<lparr>dataChannels := AList.update (closurePeer pc) ch (dataChannels s)\<rparr>)"
| "fire (DataChannelClosed h) s =
     (case connAt s h of
        None \<Rightarrow> s
      | Some pc \<Rightarrow> s\<lparr>dataChannels := AList.delete (closurePeer pc) (dataChannels s)\<rparr>)"
| "fire IceRetryTimerFired s =
     (case iceRetryTimers s of
        [] \<Rightarrow> s
      | (h, c) # rest \<Rightarrow> withConn h (nativeAddIce c) (s\<lparr>iceRetryTimers := rest\<rparr>))"
| "fire ScreenTrackEnded s = stopScreenShare s"

section \<open>The screen-share part of \<^verbatim>\<open>useMediaStream\<close>\<close>


definition streamAddTrack :: "track_ref \<Rightarrow> track_ref list \<Rightarrow> track_ref list" where
  "streamAddTrack r st = (if r \<in> set st then st else st @ [r])"

text \<open>
  \<^verbatim>\<open>removeTrack\<close> and \<^verbatim>\<open>stop\<close> of the stream's first video track, then \<^verbatim>\<open>addTrack\<close> of the
  new one.
\<close>

definition swapLocalVideo :: "track_ref \<Rightarrow> track_ref list \<Rightarrow> service \<Rightarrow> service" where
  "swapLocalVideo newTrack ls s =
     (case firstOf (getVideoTracks ls) of
        None \<Rightarrow> s\<lparr>localStream := Some (streamAddTrack newTrack ls)\<rparr>
      | Some old \<Rightarrow>
          (stopTrack old s)\<lparr>localStream := Some (streamAddTrack newTrack (remove1 old ls))\<rparr>)"




section \<open>Observations\<close>

text \<open>The outbound video senders of a connection, and those whose track is live.\<close>

definition videoSenders :: "rtc_pc \<Rightarrow> transceiver list" where
  "videoSenders pc = filter isVideoSender (transceivers pc)"


text \<open>
  Connection \<open>h\<close> is registered and open and has exactly one outbound video sender, which
  carries track \<open>t\<close>; and the number of outbound video senders of every connection.
\<close>

definition soleVideoSender :: "service \<Rightarrow> handle \<Rightarrow> track_ref \<Rightarrow> bool" where
  "soleVideoSender s h t =
     (h < length (conns s) \<and> h \<in> snd ` set (peerConnections s) \<and> \<not> isClosed (conns s ! h)
      \<and> (\<exists>tr. videoSenders (conns s ! h) = [tr] \<and> receiverKind tr = Video
                \<and> senderTrack tr = Some t))"


text \<open>The renegotiation offers handed to the message callback for a peer.\<close>

definition isRenegotiationFor :: "peer_id \<Rightarrow> message \<Rightarrow> bool" where
  "isRenegotiationFor peerId m =
     (case m of OfferMsg _ _ to _ reneg \<Rightarrow> to = peerId \<and> reneg | _ \<Rightarrow> False)"

definition renegotiationOffers :: "peer_id \<Rightarrow> service \<Rightarrow> message list" where
  "renegotiationOffers peerId s = filter (isRenegotiationFor peerId) (sentMessages s)"

text \<open>The playback sinks of a peer: the entries of the map, and the elements in the page.\<close>

definition sinksOf :: "peer_id \<Rightarrow> service \<Rightarrow> (peer_id \<times> audio_el) list" where
  "sinksOf peerId s = filter (\<lambda>e. fst e = peerId) (viewerAudioElements s)"

definition sinksInBody :: "peer_id \<Rightarrow> service \<Rightarrow> string list" where
  "sinksInBody peerId s = filter (\<lambda>i. i = audioElementId peerId) (documentBody s)"

text \<open>
  Map and page agree on the playback elements: one entry per peer, and the page holds the
  elements of the map, each under the id made from its peer id.
\<close>

definition sinkInv :: "service \<Rightarrow> bool" where
  "sinkInv s =
     (distinct (map fst (viewerAudioElements s))
      \<and> documentBody s = map (\<lambda>e. elId (snd e)) (viewerAudioElements s)
      \<and> list_all (\<lambda>e. elId (snd e) = audioElementId (fst e)) (viewerAudioElements s))"

section \<open>Concrete scenarios\<close>

definition hostCandidate :: ice_candidate where
  "hostCandidate =
     \<lparr> candidate = Val ''candidate:1 1 UDP 2122260223 192.0.2.1 54400 typ host'',
       sdpMLineIndex = Val 0, sdpMid = Val ''0'', usernameFragment = Undefined \<rparr>"

definition relayCandidate :: ice_candidate where
  "relayCandidate =
     \<lparr> candidate = Val ''candidate:2 1 UDP 41885439 198.51.100.7 3478 typ relay'',
       sdpMLineIndex = Val 0, sdpMid = Val ''0'', usernameFragment = Undefined \<rparr>"

text \<open>The end-of-candidates mark of media line \<open>m\<close>: an empty candidate string.\<close>

definition endOfCandidates :: "nat \<Rightarrow> ice_candidate" where
  "endOfCandidates m =
     \<lparr> candidate = Val [], sdpMLineIndex = Val m, sdpMid = Val (show_nat m),
       usernameFragment = Undefined \<rparr>"

definition someOffer :: session_description where
  "someOffer = \<lparr> sdType = Offer, sdp = ''v=0 offer'' \<rparr>"

definition someAnswer :: session_description where
  "someAnswer = \<lparr> sdType = Answer, sdp = ''v=0 answer'' \<rparr>"

text \<open>A viewer that has just created its connection to the broadcaster.\<close>

definition viewerJoined :: service where
  "viewerJoined = snd (createPeerConnection ''broadcaster'' False (initial False))"

text \<open>An endpoint that has sent its offer to one viewer and waits for the answer.\<close>

definition offerSent :: service where
  "offerSent =
     (initial False)
       \<lparr> conns := [(newPc ''viewer-1'')\<lparr>signalingState := HaveLocalOffer\<rparr>],
         peerConnections := [(''viewer-1'', 0)] \<rparr>"

text \<open>A broadcaster with camera and microphone while a screen share runs.\<close>

definition sharingScreen :: service where
  "sharingScreen =
     (initial False)
       \<lparr> localStream := Some [(Video, 0), (Audio, 1)],
         screenStream := Some [(Video, 2)],
         trackStates := replicate 3 \<lparr>enabled = True, readyState = Live\<rparr> \<rparr>"

text \<open>Two viewers, each with a connection of its own.\<close>

definition twoViewers :: service where
  "twoViewers =
     snd (createPeerConnection ''viewer-2'' True
            (snd (createPeerConnection ''viewer-1'' True (initial False))))"

text \<open>
  A broadcaster with camera and microphone and all three callbacks set; then with one viewer
  whose connection went through \<^verbatim>\<open>connecting\<close> to \<^verbatim>\<open>connected\<close>; then with that viewer's
  data channel open and its microphone track arrived.
\<close>

definition broadcasterReady :: service where
  "broadcasterReady =
     (initial False)
       \<lparr> localStream := Some [(Video, 0), (Audio, 1)],
         trackStates := replicate 2 \<lparr>enabled = True, readyState = Live\<rparr>,
         onMessageCallback := True, onStreamCallback := True, onPeerStateCallback := True \<rparr>"

definition viewerConnected :: service where
  "viewerConnected =
     fire (ConnectionStateChanged 0 Connected)
       (fire (ConnectionStateChanged 0 Connecting)
          (snd (createPeerConnection ''viewer-1'' True broadcasterReady)))"

definition viewerTalking :: service where
  "viewerTalking =
     fire (TrackArrived 0 Audio (Some ''viewer-1-mic'')) (fire (DataChannelOpened 0 7) viewerConnected)"

definition connectedPc :: rtc_pc where
  "connectedPc =
     \<lparr> closurePeer = ''viewer-1'', signalingState = Stable, connectionState = Connected,
       iceConnectionState = IceNew, remoteDescription = None,
       transceivers =
         [\<lparr>receiverKind = Audio, direction = SendRecv, senderTrack = Some (Audio, 1)\<rparr>,
          \<lparr>receiverKind = Video, direction = SendRecv, senderTrack = Some (Video, 0)\<rparr>],
       addIceCalls = [], restartIceCalls = 0, getStatsCalls = 0,
       connectionTimeoutPending = False \<rparr>"

text \<open>
  The broadcaster of \<open>viewerTalking\<close> after a second \<^verbatim>\<open>createPeerConnection\<close> for
  \<^verbatim>\<open>viewer-1\<close>: the registry now holds the second connection, the first is still open and
  connected.
\<close>

definition viewerReplaced :: service where
  "viewerReplaced = snd (createPeerConnection ''viewer-1'' True viewerTalking)"


text \<open>
  A viewer whose connection to the broadcaster has reached \<^verbatim>\<open>connecting\<close>, on Firefox
  (\<open>True\<close>) or on another browser.
\<close>

definition viewerConnecting :: "bool \<Rightarrow> service" where
  "viewerConnecting ff =
     fire (ConnectionStateChanged 0 Connecting)
       (snd (createPeerConnection ''broadcaster'' False (initial ff)))"

text \<open>
  A viewer with two microphone tracks at hand and the message callback set; the same viewer
  after enabling its audio; and after enabling, disabling and enabling again, no answer
  having arrived in between.
\<close>

definition viewerWithMic :: service where
  "viewerWithMic =
     viewerJoined
       \<lparr> onMessageCallback := True,
         trackStates := replicate 2 \<lparr>enabled = True, readyState = Live\<rparr> \<rparr>"

definition micOn :: service where
  "micOn = snd (enableViewerAudio ''broadcaster'' (Audio, 0) (Some someOffer) viewerWithMic)"

definition micOnOffOn :: service where
  "micOnOffOn =
     snd (enableViewerAudio ''broadcaster'' (Audio, 1) (Some someOffer)
            (snd (disableViewerAudio ''broadcaster'' (Some someOffer) micOn)))"

definition micPc :: "nat \<Rightarrow> rtc_pc" where
  "micPc n =
     \<lparr> closurePeer = ''broadcaster'', signalingState = HaveLocalOffer, connectionState = CNew,
       iceConnectionState = IceNew, remoteDescription = None,
       transceivers =
         [\<lparr>receiverKind = Audio, direction = SendRecv, senderTrack = Some (Audio, n)\<rparr>,
          \<lparr>receiverKind = Video, direction = RecvOnly, senderTrack = None\<rparr>],
       addIceCalls = [], restartIceCalls = 0, getStatsCalls = 0,
       connectionTimeoutPending = True \<rparr>"

definition renegOffer :: message where
  "renegOffer = OfferMsg [] [] ''broadcaster'' someOffer True"







section \<open>Auxiliary definitions\<close>

text \<open>The connection that \<^verbatim>\<open>createPeerConnection\<close> builds, written out.\<close>

definition builtPc :: "peer_id \<Rightarrow> bool \<Rightarrow> service \<Rightarrow> rtc_pc" where
  "builtPc p i s =
    (case localStream s of
       None \<Rightarrow> (if \<not> i then pcAddTransceiver Video RecvOnly (pcAddTransceiver Audio SendRecv (newPc p)) else newPc p)
     | Some ls \<Rightarrow>
        (newPc p)\<lparr>transceivers :=
           map (\<lambda>t. \<lparr>receiverKind = fst t, direction = SendRecv, senderTrack = Some t\<rparr>)
             (case firstOf (getAudioTracks ls) of None \<Rightarrow> [] | Some a \<Rightarrow> [a])
           @ map (\<lambda>t. \<lparr>receiverKind = fst t, direction = SendRecv, senderTrack = Some t\<rparr>)
             (case (case screenStream s of Some ss \<Rightarrow> firstOf (getVideoTracks ss)
                     | None \<Rightarrow> firstOf (getVideoTracks ls)) of None \<Rightarrow> [] | Some v \<Rightarrow> [v])\<rparr>)"

text \<open>
  One round of the loop of \<^verbatim>\<open>replaceVideoTrack\<close>, and the loop on the store alone.
\<close>

definition replaceStep :: "track_ref \<Rightarrow> peer_id \<times> handle \<Rightarrow> service \<Rightarrow> service" where
  "replaceStep t e s =
     (case connAt s (snd e) of
        None \<Rightarrow> s
      | Some pc \<Rightarrow> setConn (snd e) (replaceConnVideo t pc) s)"

definition replaceInConns :: "track_ref \<Rightarrow> (peer_id \<times> handle) list \<Rightarrow> rtc_pc list \<Rightarrow> rtc_pc list" where
  "replaceInConns t reg cs =
     fold (\<lambda>e cs'. if snd e < length cs' then cs'[snd e := replaceConnVideo t (cs' ! snd e)] else cs')
       reg cs"

text \<open>
  A new track as the browser hands it over, and the state after the service's
  \<^verbatim>\<open>initializeScreenShare\<close> captured one video track.
\<close>

definition liveTrack :: track_state where
  "liveTrack = \<lparr>enabled = True, readyState = Live\<rparr>"

definition shareStarted :: "service \<Rightarrow> service" where
  "shareStarted s = snd (initializeScreenShare (Some [Video]) s)"


section \<open>Lemmas on the ICE candidate queue\<close>

lemma unregistered_drop: "getPc s p = None \<Longrightarrow> addIceCandidate p c oc s = s"
  by (simp add: addIceCandidate_def)

lemma seen_drop:
  "candidateFingerprint c \<in> set (getOr [] (processedCandidates s) p) \<Longrightarrow> addIceCandidate p c oc s = s"
  apply (cases "getPc s p")
   apply (simp add: addIceCandidate_def)
  apply (cases "map_of (processedCandidates s) p")
   apply (simp add: getOr_def)
  apply (simp add: addIceCandidate_def getOr_def split: prod.splits)
  done

lemma getOr_update [simp]: "getOr d (AList.update k v al) k = v"
  by (simp add: getOr_def update_conv')

lemma getOr_update_other [simp]: "k' \<noteq> k \<Longrightarrow> getOr d (AList.update k v al) k' = getOr d al k'"
  by (simp add: getOr_def update_conv')

lemma getOr_None: "map_of al k = None \<Longrightarrow> getOr d al k = d"
  by (simp add: getOr_def)

text \<open>The recorded fingerprints after a delivery that is not a repeat.\<close>

lemma fresh_delivery_processed:
  assumes "getPc s p = Some (h, pc)"
    and "candidateFingerprint c \<notin> set (getOr [] (processedCandidates s) p)"
  shows "getOr [] (processedCandidates (addIceCandidate p c oc s)) p
           = getOr [] (processedCandidates s) p @ [candidateFingerprint c]"
proof (cases "map_of (processedCandidates s) p")
  case None
  then show ?thesis using assms
    by (simp add: addIceCandidate_def getOr_None Let_def setConn_def)
next
  case (Some ps)
  then show ?thesis using assms
    by (simp add: addIceCandidate_def Let_def setConn_def)
qed

lemma delivered_seen:
  assumes "getPc s p = Some (h, pc)"
  shows "candidateFingerprint c \<in> set (getOr [] (processedCandidates (addIceCandidate p c oc s)) p)"
proof (cases "candidateFingerprint c \<in> set (getOr [] (processedCandidates s) p)")
  case True
  then show ?thesis by (simp add: seen_drop)
next
  case False
  then show ?thesis using fresh_delivery_processed[OF assms False] by simp
qed

lemma delivery_registry:
  "peerConnections (addIceCandidate p c oc s) = peerConnections s"
proof (cases "getPc s p")
  case None
  then show ?thesis by (simp add: unregistered_drop)
next
  case (Some a)
  obtain h pc where a: "a = (h, pc)" by (cases a)
  show ?thesis
  proof (cases "map_of (processedCandidates s) p")
    case None
    then show ?thesis using Some a
      by (simp add: addIceCandidate_def getOr_None Let_def setConn_def)
  next
    case (Some ps)
    then show ?thesis using \<open>getPc s p = Some a\<close> a
      by (simp add: addIceCandidate_def Let_def setConn_def)
  qed
qed

lemma delivery_conns_length:
  "length (conns (addIceCandidate p c oc s)) = length (conns s)"
proof (cases "getPc s p")
  case None
  then show ?thesis by (simp add: unregistered_drop)
next
  case (Some a)
  obtain h pc where a: "a = (h, pc)" by (cases a)
  show ?thesis
  proof (cases "map_of (processedCandidates s) p")
    case None
    then show ?thesis using Some a
      by (simp add: addIceCandidate_def getOr_None Let_def setConn_def)
  next
    case (Some ps)
    then show ?thesis using \<open>getPc s p = Some a\<close> a
      by (simp add: addIceCandidate_def Let_def setConn_def)
  qed
qed

lemma delivered_getPc:
  "(getPc (addIceCandidate p c oc s) p = None) = (getPc s p = None)"
  by (simp add: getPc_def connAt_def delivery_registry delivery_conns_length split: option.splits)

lemma key_fp: "dedupKey c' = dedupKey c \<Longrightarrow> candidateFingerprint c' = candidateFingerprint c"
  by (simp add: dedupKey_def candidateFingerprint_def)

lemma queue_step:
  assumes "getPc s p = Some (h, pc)" and "remoteDescription pc = None"
  shows "conns (addIceCandidate p c oc s) = conns s"
    and "getOr [] (queuedIceCandidates (addIceCandidate p c oc s)) p
           = getOr [] (queuedIceCandidates s) p
             @ (if candidateFingerprint c \<in> set (getOr [] (processedCandidates s) p) then [] else [c])"
    and "getOr [] (processedCandidates (addIceCandidate p c oc s)) p
           = getOr [] (processedCandidates s) p
             @ (if candidateFingerprint c \<in> set (getOr [] (processedCandidates s) p) then []
                else [candidateFingerprint c])"
proof -
  show "conns (addIceCandidate p c oc s) = conns s"
  proof (cases "candidateFingerprint c \<in> set (getOr [] (processedCandidates s) p)")
    case True then show ?thesis by (simp add: seen_drop)
  next
    case False
    show ?thesis
    proof (cases "map_of (processedCandidates s) p")
      case None
      then show ?thesis using assms False
        by (simp add: addIceCandidate_def getOr_None Let_def)
    next
      case (Some ps)
      then show ?thesis using assms False
        by (simp add: addIceCandidate_def Let_def)
    qed
  qed
  show "getOr [] (queuedIceCandidates (addIceCandidate p c oc s)) p
           = getOr [] (queuedIceCandidates s) p
             @ (if candidateFingerprint c \<in> set (getOr [] (processedCandidates s) p) then [] else [c])"
  proof (cases "candidateFingerprint c \<in> set (getOr [] (processedCandidates s) p)")
    case True then show ?thesis by (simp add: seen_drop)
  next
    case False
    show ?thesis
    proof (cases "map_of (processedCandidates s) p")
      case None
      then show ?thesis using assms False
        by (cases "map_of (queuedIceCandidates s) p")
           (simp_all add: addIceCandidate_def getOr_def Let_def update_conv')
    next
      case (Some ps)
      then show ?thesis using assms False
        by (cases "map_of (queuedIceCandidates s) p")
           (simp_all add: addIceCandidate_def getOr_def Let_def update_conv')
    qed
  qed
  show "getOr [] (processedCandidates (addIceCandidate p c oc s)) p
           = getOr [] (processedCandidates s) p
             @ (if candidateFingerprint c \<in> set (getOr [] (processedCandidates s) p) then []
                else [candidateFingerprint c])"
    using fresh_delivery_processed[OF assms(1), of c oc] seen_drop[of c s p oc] by simp
qed

lemma getPc_frame:
  "peerConnections s' = peerConnections s \<Longrightarrow> conns s' = conns s \<Longrightarrow> getPc s' p = getPc s p"
  by (simp add: getPc_def connAt_def split: option.splits)

lemma deliverAll_Nil [simp]: "deliverAll p [] s = s"
  by (simp add: deliverAll_def)

lemma deliverAll_Cons [simp]:
  "deliverAll p (co # cos) s = deliverAll p cos (addIceCandidate p (fst co) (snd co) s)"
  by (simp add: deliverAll_def split: prod.splits)

lemma queue_run:
  assumes "getPc s p = Some (h, pc)" and "remoteDescription pc = None"
  shows "conns (deliverAll p cos s) = conns s
       \<and> peerConnections (deliverAll p cos s) = peerConnections s
       \<and> getOr [] (queuedIceCandidates (deliverAll p cos s)) p
           = getOr [] (queuedIceCandidates s) p
             @ firstSeen (getOr [] (processedCandidates s) p) (map fst cos)
       \<and> getOr [] (processedCandidates (deliverAll p cos s)) p
           = getOr [] (processedCandidates s) p
             @ map candidateFingerprint
                 (firstSeen (getOr [] (processedCandidates s) p) (map fst cos))"
  using assms
proof (induction cos arbitrary: s)
  case Nil
  then show ?case by simp
next
  case (Cons co cos)
  let ?s1 = "addIceCandidate p (fst co) (snd co) s"
  have c1: "conns ?s1 = conns s" using queue_step(1)[OF Cons.prems] .
  have r1: "peerConnections ?s1 = peerConnections s" by (rule delivery_registry)
  have g1: "getPc ?s1 p = Some (h, pc)" using getPc_frame[OF r1 c1] Cons.prems(1) by simp
  note ih = Cons.IH[OF g1 Cons.prems(2)]
  show ?case using ih c1 r1 queue_step(2,3)[OF Cons.prems, of "fst co" "snd co"]
    by (simp split: if_splits)
qed

lemma firstSeen_subseq: "subseq (firstSeen seen cs) cs"
  by (induction cs arbitrary: seen) auto

lemma firstSeen_fresh_mem:
  "c \<in> set (firstSeen seen cs) \<Longrightarrow> candidateFingerprint c \<notin> set seen"
proof (induction cs arbitrary: seen)
  case Nil then show ?case by simp
next
  case (Cons a cs)
  show ?case
  proof (cases "candidateFingerprint a \<in> set seen")
    case True
    then show ?thesis using Cons.prems Cons.IH[of seen] by simp
  next
    case False
    then show ?thesis using Cons.prems Cons.IH[of "seen @ [candidateFingerprint a]"] by auto
  qed
qed

lemma firstSeen_fresh:
  "set (map candidateFingerprint (firstSeen seen cs)) \<inter> set seen = {}"
  using firstSeen_fresh_mem by auto

lemma firstSeen_distinct: "distinct (map candidateFingerprint (firstSeen seen cs))"
proof (induction cs arbitrary: seen)
  case Nil then show ?case by simp
next
  case (Cons c cs)
  show ?case using Cons.IH[of seen] Cons.IH[of "seen @ [candidateFingerprint c]"]
      firstSeen_fresh[of "seen @ [candidateFingerprint c]" cs]
    by auto
qed

lemma firstSeen_covers:
  "set (map candidateFingerprint (firstSeen seen cs)) = set (map candidateFingerprint cs) - set seen"
  by (induction cs arbitrary: seen) auto

lemma firstSeen_all:
  "distinct (map candidateFingerprint cs) \<Longrightarrow> set (map candidateFingerprint cs) \<inter> set seen = {}
   \<Longrightarrow> firstSeen seen cs = cs"
  by (induction cs arbitrary: seen) auto

lemma fold_nativeAddIce: "fold nativeAddIce q pc = pc\<lparr>addIceCalls := addIceCalls pc @ q\<rparr>"
  by (induction q arbitrary: pc) (simp_all add: nativeAddIce_def)

lemma getPc_SomeD:
  "getPc s p = Some (h, pc) \<Longrightarrow>
     map_of (peerConnections s) p = Some h \<and> h < length (conns s) \<and> conns s ! h = pc"
  by (auto simp: getPc_def connAt_def split: option.splits if_splits)

lemma getPc_setConn:
  "getPc s p = Some (h, pc) \<Longrightarrow> getPc (setConn h pc' s) p = Some (h, pc')"
  by (auto simp: getPc_def connAt_def setConn_def split: option.splits if_splits)

lemma flush:
  assumes "getPc s p = Some (h, pc)" and "remoteDescription pc \<noteq> None"
  shows "conns (processQueuedIceCandidates p s)
           = (conns s)[h := pc\<lparr>addIceCalls := addIceCalls pc @ getOr [] (queuedIceCandidates s) p\<rparr>]"
    and "getOr [] (queuedIceCandidates (processQueuedIceCandidates p s)) p = []"
proof -
  note d = getPc_SomeD[OF assms(1)]
  have same: "(conns s)[h := pc] = conns s" using d by (metis list_update_id)
  show "conns (processQueuedIceCandidates p s)
           = (conns s)[h := pc\<lparr>addIceCalls := addIceCalls pc @ getOr [] (queuedIceCandidates s) p\<rparr>]"
    using assms same
    by (cases "map_of (queuedIceCandidates s) p")
       (auto simp: processQueuedIceCandidates_def getOr_def fold_nativeAddIce setConn_def)
  show "getOr [] (queuedIceCandidates (processQueuedIceCandidates p s)) p = []"
    using assms
    by (cases "map_of (queuedIceCandidates s) p")
       (auto simp: processQueuedIceCandidates_def getOr_def setConn_def delete_conv')
qed

lemma handleAnswer_accepts:
  assumes "getPc s p = Some (h, pc)" and "signalingState pc = HaveLocalOffer"
  shows "handleAnswer p a True s =
           (Inr (), processQueuedIceCandidates p
              (setConn h (pc\<lparr>remoteDescription := Some a,
                              signalingState := (case sdType a of Offer \<Rightarrow> HaveRemoteOffer
                                                 | Answer \<Rightarrow> Stable)\<rparr>) s))"
  using assms by (simp add: handleAnswer_def setRemoteDescription_def split: sd_type.splits)

lemma handleAnswer_flush:
  assumes "getPc s p = Some (h, pc)" and "signalingState pc = HaveLocalOffer"
  shows "fst (handleAnswer p a True s) = Inr ()"
    and "map addIceCalls (conns (snd (handleAnswer p a True s)))
           = (map addIceCalls (conns s))[h := addIceCalls pc @ getOr [] (queuedIceCandidates s) p]"
    and "getOr [] (queuedIceCandidates (snd (handleAnswer p a True s))) p = []"
proof -
  let ?pc' = "pc\<lparr>remoteDescription := Some a,
                  signalingState := (case sdType a of Offer \<Rightarrow> HaveRemoteOffer | Answer \<Rightarrow> Stable)\<rparr>"
  have g: "getPc (setConn h ?pc' s) p = Some (h, ?pc')" by (rule getPc_setConn[OF assms(1)])
  have r: "remoteDescription ?pc' \<noteq> None" by simp
  have q: "queuedIceCandidates (setConn h ?pc' s) = queuedIceCandidates s" by (simp add: setConn_def)
  show "fst (handleAnswer p a True s) = Inr ()" by (simp add: handleAnswer_accepts[OF assms])
  show "map addIceCalls (conns (snd (handleAnswer p a True s)))
           = (map addIceCalls (conns s))[h := addIceCalls pc @ getOr [] (queuedIceCandidates s) p]"
    using flush(1)[OF g r] q
    by (simp add: handleAnswer_accepts[OF assms] setConn_def map_update)
  show "getOr [] (queuedIceCandidates (snd (handleAnswer p a True s))) p = []"
    using flush(2)[OF g r] by (simp add: handleAnswer_accepts[OF assms])
qed

lemma createAnswer_flush:
  assumes "getPc s p = Some (h, pc)"
    and "signalingState pc = Stable \<or> signalingState pc = HaveLocalOffer"
    and "sdType off = Offer"
  shows "map addIceCalls (conns (snd (createAnswer p off True made s)))
           = (map addIceCalls (conns s))[h := addIceCalls pc @ getOr [] (queuedIceCandidates s) p]"
    and "getOr [] (queuedIceCandidates (snd (createAnswer p off True made s))) p = []"
    and "made \<noteq> None \<longrightarrow> fst (createAnswer p off True made s) = Inr (the made)"
proof -
  let ?pc' = "pc\<lparr>remoteDescription := Some off, signalingState := HaveRemoteOffer\<rparr>"
  let ?s1 = "processQueuedIceCandidates p (setConn h ?pc' s)"
  note d = getPc_SomeD[OF assms(1)]
  have g: "getPc (setConn h ?pc' s) p = Some (h, ?pc')" by (rule getPc_setConn[OF assms(1)])
  have r: "remoteDescription ?pc' \<noteq> None" by simp
  have q: "queuedIceCandidates (setConn h ?pc' s) = queuedIceCandidates s" by (simp add: setConn_def)
  have c1: "conns ?s1 = (conns s)[h := ?pc'\<lparr>addIceCalls := addIceCalls pc @ getOr [] (queuedIceCandidates s) p\<rparr>]"
    using flush(1)[OF g r] q by (simp add: setConn_def)
  have at: "connAt ?s1 h = Some (?pc'\<lparr>addIceCalls := addIceCalls pc @ getOr [] (queuedIceCandidates s) p\<rparr>)"
    using c1 d by (simp add: connAt_def)
  have sr: "setRemoteDescription True off pc = Some ?pc'"
    using assms(2,3) by (auto simp: setRemoteDescription_def)
  have st: "signalingState pc \<noteq> SigClosed" using assms(2) by auto
  show "map addIceCalls (conns (snd (createAnswer p off True made s)))
           = (map addIceCalls (conns s))[h := addIceCalls pc @ getOr [] (queuedIceCandidates s) p]"
    using assms sr at c1
    by (cases made)
       (auto simp: createAnswer_def Let_def createAndSetLocalAnswer_def setConn_def map_update)
  show "getOr [] (queuedIceCandidates (snd (createAnswer p off True made s))) p = []"
    using assms sr at flush(2)[OF g r]
    by (cases made)
       (auto simp: createAnswer_def Let_def createAndSetLocalAnswer_def setConn_def)
  show "made \<noteq> None \<longrightarrow> fst (createAnswer p off True made s) = Inr (the made)"
    using assms sr at
    by (cases made)
       (auto simp: createAnswer_def Let_def createAndSetLocalAnswer_def setConn_def)
qed

lemma viewerJoined_eq:
  "viewerJoined = (initial False)
       \<lparr> conns := [pcAddTransceiver Video RecvOnly (pcAddTransceiver Audio SendRecv (newPc ''broadcaster''))],
         peerConnections := [(''broadcaster'', 0)] \<rparr>"
  by (simp add: viewerJoined_def createPeerConnection_def initial_def Let_def)

lemma fp_host: "candidateFingerprint hostCandidate = ''candidate:1 1 UDP 2122260223 192.0.2.1 54400 typ host:0:0''"
  by (simp add: candidateFingerprint_def hostCandidate_def truthyStr_def tmplStr_def tmplNat_def show_nat.simps)

lemma fp_relay: "candidateFingerprint relayCandidate = ''candidate:2 1 UDP 41885439 198.51.100.7 3478 typ relay:0:0''"
  by (simp add: candidateFingerprint_def relayCandidate_def truthyStr_def tmplStr_def tmplNat_def show_nat.simps)

lemma fp_eoc: "candidateFingerprint (endOfCandidates m) = ''null-candidate''"
  by (simp add: candidateFingerprint_def endOfCandidates_def truthyStr_def)

section \<open>Queued candidates are flushed in arrival order (C1)\<close>

text \<open>
  Claim C1, as the code has it. While a registered peer has no remote description, a run of
  deliveries queues the candidates whose fingerprint was not recorded for the peer before
  (\<open>firstSeen\<close>: in arrival order, one per fingerprint) and makes no native call. Setting the
  remote description in \<^verbatim>\<open>handleAnswer\<close> (from \<^verbatim>\<open>have-local-offer\<close>) or in \<^verbatim>\<open>createAnswer\<close>
  (from \<^verbatim>\<open>stable\<close> or \<^verbatim>\<open>have-local-offer\<close>) then applies the queue to that connection, in
  order and once each, touches no other connection, and leaves the peer's queue empty. A
  candidate whose fingerprint is already recorded is dropped.
\<close>

theorem queued_candidates_flushed_in_arrival_order:
  assumes "getPc s p = Some (h, pc)" and "remoteDescription pc = None"
  shows "let news = firstSeen (getOr [] (processedCandidates s) p) (map fst cos);
             queue = getOr [] (queuedIceCandidates s) p @ news;
             s1 = deliverAll p cos s
         in subseq news (map fst cos)
          \<and> distinct (map candidateFingerprint news)
          \<and> set (map candidateFingerprint news)
              = set (map candidateFingerprint (map fst cos)) - set (getOr [] (processedCandidates s) p)
          \<and> conns s1 = conns s
          \<and> getOr [] (queuedIceCandidates s1) p = queue
          \<and> (signalingState pc = HaveLocalOffer \<longrightarrow>
               fst (handleAnswer p a True s1) = Inr ()
             \<and> map addIceCalls (conns (snd (handleAnswer p a True s1)))
                 = (map addIceCalls (conns s))[h := addIceCalls pc @ queue]
             \<and> getOr [] (queuedIceCandidates (snd (handleAnswer p a True s1))) p = [])
          \<and> ((signalingState pc = Stable \<or> signalingState pc = HaveLocalOffer) \<and> sdType off = Offer \<longrightarrow>
               map addIceCalls (conns (snd (createAnswer p off True made s1)))
                 = (map addIceCalls (conns s))[h := addIceCalls pc @ queue]
             \<and> getOr [] (queuedIceCandidates (snd (createAnswer p off True made s1))) p = [])"
proof -
  let ?s1 = "deliverAll p cos s"
  note run = queue_run[OF assms, of cos]
  have g1: "getPc ?s1 p = Some (h, pc)"
    using getPc_frame[of ?s1 s p] run assms(1) by simp
  have q1: "getOr [] (queuedIceCandidates ?s1) p
              = getOr [] (queuedIceCandidates s) p
                @ firstSeen (getOr [] (processedCandidates s) p) (map fst cos)"
    using run by simp
  have c1: "conns ?s1 = conns s" using run by simp
  have cov: "set (map candidateFingerprint
                (firstSeen (getOr [] (processedCandidates s) p) (map fst cos)))
             = set (map candidateFingerprint (map fst cos))
               - set (getOr [] (processedCandidates s) p)"
    by (rule firstSeen_covers)
  have A: "subseq (firstSeen (getOr [] (processedCandidates s) p) (map fst cos)) (map fst cos)"
    by (rule firstSeen_subseq)
  have B: "distinct (map candidateFingerprint
             (firstSeen (getOr [] (processedCandidates s) p) (map fst cos)))"
    by (rule firstSeen_distinct)
  have F: "signalingState pc = HaveLocalOffer \<longrightarrow>
               fst (handleAnswer p a True ?s1) = Inr ()
             \<and> map addIceCalls (conns (snd (handleAnswer p a True ?s1)))
                 = (map addIceCalls (conns s))[h := addIceCalls pc @
                      (getOr [] (queuedIceCandidates s) p
                       @ firstSeen (getOr [] (processedCandidates s) p) (map fst cos))]
             \<and> getOr [] (queuedIceCandidates (snd (handleAnswer p a True ?s1))) p = []"
    using handleAnswer_flush[OF g1, of a] by (simp add: c1 q1)
  have G: "(signalingState pc = Stable \<or> signalingState pc = HaveLocalOffer) \<and> sdType off = Offer \<longrightarrow>
               map addIceCalls (conns (snd (createAnswer p off True made ?s1)))
                 = (map addIceCalls (conns s))[h := addIceCalls pc @
                      (getOr [] (queuedIceCandidates s) p
                       @ firstSeen (getOr [] (processedCandidates s) p) (map fst cos))]
             \<and> getOr [] (queuedIceCandidates (snd (createAnswer p off True made ?s1))) p = []"
    using createAnswer_flush(1,2)[OF g1, of off made] by (simp add: c1 q1)
  show ?thesis
    unfolding Let_def
    by (intro conjI) (rule A B cov c1 q1 F G)+
qed

text \<open>
  Claim C1 as stated fails: the end-of-candidates marks of two media lines have different
  deduplication keys and the same fingerprint \<^verbatim>\<open>null-candidate\<close>, so the second one is dropped
  and never applied.
\<close>

theorem colliding_fingerprints_second_never_applied:
  "dedupKey (endOfCandidates 0) \<noteq> dedupKey (endOfCandidates 1)
   \<and> map addIceCalls (conns (snd (createAnswer ''broadcaster'' someOffer True (Some someAnswer)
        (deliverAll ''broadcaster'' [(endOfCandidates 0, Applied), (endOfCandidates 1, Applied)]
           viewerJoined))))
     = [[endOfCandidates 0]]"
proof -
  let ?pc = "pcAddTransceiver Video RecvOnly (pcAddTransceiver Audio SendRecv (newPc ''broadcaster''))"
  let ?cos = "[(endOfCandidates 0, Applied), (endOfCandidates 1, Applied)]"
  let ?s1 = "deliverAll ''broadcaster'' ?cos viewerJoined"
  have g: "getPc viewerJoined ''broadcaster'' = Some (0, ?pc)"
    by (simp add: viewerJoined_eq getPc_def connAt_def initial_def)
  have r: "remoteDescription ?pc = None"
    by (simp add: pcAddTransceiver_def newPc_def)
  have st: "signalingState ?pc = Stable \<or> signalingState ?pc = HaveLocalOffer"
    by (simp add: pcAddTransceiver_def newPc_def)
  have pr: "getOr [] (processedCandidates viewerJoined) ''broadcaster'' = []"
    by (simp add: viewerJoined_eq getOr_def initial_def)
  have qu: "getOr [] (queuedIceCandidates viewerJoined) ''broadcaster'' = []"
    by (simp add: viewerJoined_eq getOr_def initial_def)
  have cs: "map addIceCalls (conns viewerJoined) = [[]]"
    by (simp add: viewerJoined_eq initial_def pcAddTransceiver_def newPc_def)
  have ac: "addIceCalls ?pc = []"
    by (simp add: pcAddTransceiver_def newPc_def)
  have k: "dedupKey (endOfCandidates 0) \<noteq> dedupKey (endOfCandidates 1)"
    by (simp add: dedupKey_def endOfCandidates_def)
  note run = queue_run[OF g r, of ?cos]
  have q1: "getOr [] (queuedIceCandidates ?s1) ''broadcaster'' = [endOfCandidates 0]"
    using run by (simp add: pr qu fp_eoc)
  have g1: "getPc ?s1 ''broadcaster'' = Some (0, ?pc)"
    using getPc_frame[of ?s1 viewerJoined "''broadcaster''"] run g by simp
  have "map addIceCalls (conns (snd (createAnswer ''broadcaster'' someOffer True (Some someAnswer) ?s1)))
          = (map addIceCalls (conns ?s1))[0 := addIceCalls ?pc @ [endOfCandidates 0]]"
    using createAnswer_flush(1)[OF g1 st, of someOffer "Some someAnswer"] q1
    by (simp add: someOffer_def)
  then show ?thesis using run k by (simp add: cs ac)
qed

text \<open>
  The theorem for C1 at a concrete run: a host candidate, a relay candidate and the host
  candidate again arrive before the answer; the answer applies host then relay.
\<close>

theorem queued_candidates_flushed_witness:
  "getPc offerSent ''viewer-1'' = Some (0, (newPc ''viewer-1'')\<lparr>signalingState := HaveLocalOffer\<rparr>)
   \<and> remoteDescription ((newPc ''viewer-1'')\<lparr>signalingState := HaveLocalOffer\<rparr>) = None
   \<and> map addIceCalls (conns (snd (handleAnswer ''viewer-1'' someAnswer True
        (deliverAll ''viewer-1''
           [(hostCandidate, Applied), (relayCandidate, Applied), (hostCandidate, Applied)]
           offerSent))))
     = [[hostCandidate, relayCandidate]]
   \<and> getOr [] (queuedIceCandidates (snd (handleAnswer ''viewer-1'' someAnswer True
        (deliverAll ''viewer-1''
           [(hostCandidate, Applied), (relayCandidate, Applied), (hostCandidate, Applied)]
           offerSent)))) ''viewer-1'' = []"
proof -
  have g: "getPc offerSent ''viewer-1'' = Some (0, (newPc ''viewer-1'')\<lparr>signalingState := HaveLocalOffer\<rparr>)"
    by (simp add: offerSent_def getPc_def connAt_def initial_def)
  have r: "remoteDescription ((newPc ''viewer-1'')\<lparr>signalingState := HaveLocalOffer\<rparr>) = None"
    by (simp add: newPc_def)
  have pr: "getOr [] (processedCandidates offerSent) ''viewer-1'' = []"
    by (simp add: offerSent_def getOr_def initial_def)
  have qu: "getOr [] (queuedIceCandidates offerSent) ''viewer-1'' = []"
    by (simp add: offerSent_def getOr_def initial_def)
  have cs: "map addIceCalls (conns offerSent) = [[]]"
    by (simp add: offerSent_def initial_def newPc_def)
  show ?thesis
    using queued_candidates_flushed_in_arrival_order[OF g r, of "[(hostCandidate, Applied), (relayCandidate, Applied), (hostCandidate, Applied)]"
        someAnswer someOffer None] g r
    by (simp add: Let_def pr qu cs fp_host fp_relay newPc_def)
qed

section \<open>Redelivery of a candidate (C7)\<close>

text \<open>
  Claim C7. A candidate whose deduplication key (candidate string, \<^verbatim>\<open>sdpMLineIndex\<close>,
  \<^verbatim>\<open>sdpMid\<close>) equals that of a candidate already recorded for the peer is dropped: the state
  does not change, so it is neither queued nor applied. In particular delivering such a
  candidate right after the first delivery changes nothing, whatever the peer and whatever
  the browser would have answered.
\<close>

theorem redelivered_candidate_dropped: "dedupKey c' = dedupKey c \<Longrightarrow>
  (candidateFingerprint c \<in> set (getOr [] (processedCandidates s) p) \<longrightarrow> addIceCandidate p c' oc' s = s)
  \<and> addIceCandidate p c' oc' (addIceCandidate p c oc s) = addIceCandidate p c oc s"
  using seen_drop[of c' s p oc'] seen_drop[of c' "addIceCandidate p c oc s" p oc'] delivered_seen[of s p _ _ c oc]
    unregistered_drop[of "addIceCandidate p c oc s" p c' oc'] delivered_getPc[of p c oc s] key_fp[of c' c]
  by (cases "getPc s p") auto

text \<open>
  The theorem for C7 at a concrete input: the host candidate redelivered with another
  \<^verbatim>\<open>usernameFragment\<close> has the same key; the queue keeps the single first copy.
\<close>

theorem redelivered_candidate_dropped_witness:
  "dedupKey (hostCandidate\<lparr>usernameFragment := Val ''abcd''\<rparr>) = dedupKey hostCandidate
   \<and> addIceCandidate ''viewer-1'' (hostCandidate\<lparr>usernameFragment := Val ''abcd''\<rparr>) Applied
        (addIceCandidate ''viewer-1'' hostCandidate Applied offerSent)
     = addIceCandidate ''viewer-1'' hostCandidate Applied offerSent
   \<and> getOr [] (queuedIceCandidates (addIceCandidate ''viewer-1'' hostCandidate Applied offerSent))
        ''viewer-1'' = [hostCandidate]"
proof -
  have k: "dedupKey (hostCandidate\<lparr>usernameFragment := Val ''abcd''\<rparr>) = dedupKey hostCandidate"
    by (simp add: dedupKey_def)
  have q: "getOr [] (queuedIceCandidates (addIceCandidate ''viewer-1'' hostCandidate Applied offerSent))
        ''viewer-1'' = [hostCandidate]"
    by (simp add: addIceCandidate_def offerSent_def getPc_def connAt_def initial_def getOr_def
        Let_def newPc_def)
  show ?thesis using redelivered_candidate_dropped[OF k, of offerSent "''viewer-1''" Applied Applied] k q by simp
qed

section \<open>An answer outside \<^verbatim>\<open>have-local-offer\<close> (C3)\<close>

text \<open>
  Claim C3, as the code has it. For an unknown peer and for a peer whose signalling state is
  not \<^verbatim>\<open>have-local-offer\<close>, \<^verbatim>\<open>handleAnswer\<close> never accepts the answer and leaves the state as
  it was. It returns normally when the state is \<^verbatim>\<open>stable\<close> or \<^verbatim>\<open>closed\<close>; for an unknown peer
  it throws \<^verbatim>\<open>Peer connection not found\<close>.
\<close>

theorem handleAnswer_not_accepted_outside_have_local_offer:
  assumes "case getPc s p of None \<Rightarrow> True | Some (h, pc) \<Rightarrow> signalingState pc \<noteq> HaveLocalOffer"
  shows "snd (handleAnswer p a accepted s) = s
       \<and> (getPc s p = None \<longrightarrow> fst (handleAnswer p a accepted s) = Inl PeerConnectionNotFound)
       \<and> (\<forall>h pc. getPc s p = Some (h, pc)
                  \<and> (signalingState pc = Stable \<or> signalingState pc = SigClosed)
                 \<longrightarrow> fst (handleAnswer p a accepted s) = Inr ())"
  using assms by (auto simp: handleAnswer_def split: option.splits)

text \<open>
  Claim C3 as stated fails: for a peer id that has no connection \<^verbatim>\<open>handleAnswer\<close> throws.
\<close>

theorem handleAnswer_unknown_peer_throws:
  "getPc viewerJoined ''nobody'' = None
   \<and> fst (handleAnswer ''nobody'' someAnswer True viewerJoined) = Inl PeerConnectionNotFound"
  by (simp add: handleAnswer_def viewerJoined_eq getPc_def initial_def)

text \<open>
  The theorem for C3 at a concrete input: an answer for a connection in \<^verbatim>\<open>stable\<close> state
  is ignored.
\<close>

theorem handleAnswer_not_accepted_witness:
  "(case getPc viewerJoined ''broadcaster'' of None \<Rightarrow> True
      | Some (h, pc) \<Rightarrow> signalingState pc \<noteq> HaveLocalOffer)
   \<and> handleAnswer ''broadcaster'' someAnswer True viewerJoined = (Inr (), viewerJoined)"
proof -
  have g: "getPc viewerJoined ''broadcaster''
      = Some (0, pcAddTransceiver Video RecvOnly (pcAddTransceiver Audio SendRecv (newPc ''broadcaster'')))"
    by (simp add: viewerJoined_eq getPc_def connAt_def initial_def)
  have st: "signalingState (pcAddTransceiver Video RecvOnly (pcAddTransceiver Audio SendRecv (newPc ''broadcaster''))) = Stable"
    by (simp add: pcAddTransceiver_def newPc_def)
  have h: "case getPc viewerJoined ''broadcaster'' of None \<Rightarrow> True
      | Some (h, pc) \<Rightarrow> signalingState pc \<noteq> HaveLocalOffer"
    by (simp add: g st)
  show ?thesis using handleAnswer_not_accepted_outside_have_local_offer[OF h, of someAnswer True] h g st
    by (auto simp: prod_eq_iff)
qed

section \<open>\<^verbatim>\<open>toggleVideo\<close> during a screen share (C10)\<close>

text \<open>
  Claim C10. While the screen stream is set, \<^verbatim>\<open>toggleVideo\<close> changes nothing: the enabled
  flag of every track and the rest of the state stay as they were.
\<close>

theorem toggleVideo_inert_during_screen_share: "screenStream s \<noteq> None \<Longrightarrow> toggleVideo en s = s"
  by (auto simp add: toggleVideo_def split: option.splits)

text \<open>
  The theorem for C10 at a concrete input, and the same call without a screen share, which
  does clear the flag of the camera track.
\<close>

theorem toggleVideo_inert_during_screen_share_witness:
  "screenStream sharingScreen \<noteq> None \<and> toggleVideo False sharingScreen = sharingScreen"
proof -
  have h: "screenStream sharingScreen \<noteq> None" by (simp add: sharingScreen_def)
  show ?thesis using toggleVideo_inert_during_screen_share[OF h, of False] h by simp
qed

lemma toggleVideo_without_share:
  "map enabled (trackStates (toggleVideo False (sharingScreen\<lparr>screenStream := None\<rparr>)))
     = [False, True, True]"
  by (simp add: toggleVideo_def sharingScreen_def initial_def getVideoTracks_def setEnabled_def
      updTrack_def numeral_3_eq_3)

section \<open>Lemmas on the registry and on \<^verbatim>\<open>removePeer\<close>\<close>

lemma firstOf_filter: "firstOf (filter P xs) = Some x \<Longrightarrow> P x"
  by (induction xs) (auto simp: firstOf_def split: if_splits)

lemma pcAddTrack_new: "pcAddTrack t (newPc p)
   = Some ((newPc p)\<lparr>transceivers := [\<lparr>receiverKind = fst t, direction = SendRecv, senderTrack = Some t\<rparr>]\<rparr>)"
  by (simp add: pcAddTrack_def newPc_def isClosed_def)

lemma pcAddTrack_second:
  "fst t \<noteq> fst a \<Longrightarrow> pcAddTrack t ((newPc p)\<lparr>transceivers := [\<lparr>receiverKind = fst a, direction = SendRecv, senderTrack = Some a\<rparr>]\<rparr>)
   = Some ((newPc p)\<lparr>transceivers := [\<lparr>receiverKind = fst a, direction = SendRecv, senderTrack = Some a\<rparr>,
        \<lparr>receiverKind = fst t, direction = SendRecv, senderTrack = Some t\<rparr>]\<rparr>)"
  by (auto simp add: pcAddTrack_def newPc_def isClosed_def Let_def)

lemma newPc_trs [simp]: "(newPc p)\<lparr>transceivers := []\<rparr> = newPc p"
  by (simp add: newPc_def)

lemma updTrack_frame [simp]:
  "conns (updTrack r f s) = conns s" "peerConnections (updTrack r f s) = peerConnections s"
  by (simp_all add: updTrack_def)

lemma setEnabled_frame [simp]:
  "conns (setEnabled b r s) = conns s" "peerConnections (setEnabled b r s) = peerConnections s"
  by (simp_all add: setEnabled_def)

lemma firstOf_audio_kind: "firstOf (getAudioTracks ls) = Some a \<Longrightarrow> fst a = Audio"
  using firstOf_filter[of "\<lambda>r. fst r = Audio" ls a] by (simp add: getAudioTracks_def)

lemma firstOf_video_kind: "firstOf (getVideoTracks ls) = Some a \<Longrightarrow> fst a = Video"
  using firstOf_filter[of "\<lambda>r. fst r = Video" ls a] by (simp add: getVideoTracks_def)

lemma createPeerConnection_conns:
  "fst (createPeerConnection p i s) = Inr (length (conns s))
   \<and> conns (snd (createPeerConnection p i s)) = conns s @ [builtPc p i s]
   \<and> peerConnections (snd (createPeerConnection p i s))
       = AList.update p (length (conns s)) (peerConnections s)"
proof (cases "localStream s")
  case None
  then show ?thesis
    by (simp add: createPeerConnection_def Let_def builtPc_def)
next
  case (Some ls)
  define v where "v = (case screenStream s of Some ss \<Rightarrow> firstOf (getVideoTracks ss)
                     | None \<Rightarrow> firstOf (getVideoTracks ls))"
  have vk: "\<And>x. v = Some x \<Longrightarrow> fst x = Video"
    unfolding v_def using firstOf_video_kind by (cases "screenStream s") auto
  show ?thesis
  proof (cases "firstOf (getAudioTracks ls)")
    case None
    show ?thesis
    proof (cases v)
      case None
      then show ?thesis using Some \<open>firstOf (getAudioTracks ls) = None\<close>
        unfolding createPeerConnection_def builtPc_def v_def[symmetric] Let_def
        by (simp add: v_def[symmetric])
    next
      case (Some x)
      then show ?thesis using \<open>localStream s = Some ls\<close> \<open>firstOf (getAudioTracks ls) = None\<close>
        unfolding createPeerConnection_def builtPc_def Let_def
        by (simp add: v_def[symmetric] pcAddTrack_new)
    qed
  next
    case (Some a)
    then have ak: "fst a = Audio" by (rule firstOf_audio_kind)
    show ?thesis
    proof (cases v)
      case None
      then show ?thesis using Some \<open>localStream s = Some ls\<close>
        unfolding createPeerConnection_def builtPc_def Let_def
        by (simp add: v_def[symmetric] pcAddTrack_new)
    next
      case (Some x)
      then have "fst x \<noteq> fst a" using vk ak by simp
      then show ?thesis using Some \<open>firstOf (getAudioTracks ls) = Some a\<close> \<open>localStream s = Some ls\<close>
        unfolding createPeerConnection_def builtPc_def Let_def
        by (simp add: v_def[symmetric] pcAddTrack_new pcAddTrack_second)
    qed
  qed
qed

lemma builtPc_fresh:
  "closurePeer (builtPc p i s) = p \<and> signalingState (builtPc p i s) = Stable
   \<and> connectionState (builtPc p i s) = CNew \<and> remoteDescription (builtPc p i s) = None"
  by (simp add: builtPc_def newPc_def pcAddTransceiver_def split: option.splits)

lemma closePeerConnection_frame [simp]:
  "dataChannels (closePeerConnection p s) = dataChannels s"
  "closedChannels (closePeerConnection p s) = closedChannels s"
  "healthCheckIntervals (closePeerConnection p s) = healthCheckIntervals s"
  "activeIntervals (closePeerConnection p s) = activeIntervals s"
  "queuedIceCandidates (closePeerConnection p s) = queuedIceCandidates s"
  "processedCandidates (closePeerConnection p s) = processedCandidates s"
  "viewerAudioElements (closePeerConnection p s) = viewerAudioElements s"
  "documentBody (closePeerConnection p s) = documentBody s"
  "viewerAudioTracks (closePeerConnection p s) = viewerAudioTracks s"
  "isFirefox (closePeerConnection p s) = isFirefox s"
  "trackStates (closePeerConnection p s) = trackStates s"
  "localStream (closePeerConnection p s) = localStream s"
  "screenStream (closePeerConnection p s) = screenStream s"
  "sentMessages (closePeerConnection p s) = sentMessages s"
  "nextTimer (closePeerConnection p s) = nextTimer s"
  "peerStateEvents (closePeerConnection p s) = peerStateEvents s"
  "streamEvents (closePeerConnection p s) = streamEvents s"
  "iceRetryTimers (closePeerConnection p s) = iceRetryTimers s"
  "onMessageCallback (closePeerConnection p s) = onMessageCallback s"
  "onStreamCallback (closePeerConnection p s) = onStreamCallback s"
  "onPeerStateCallback (closePeerConnection p s) = onPeerStateCallback s"
  by (simp_all add: closePeerConnection_def setConn_def split: option.splits)

lemma closeDataChannel_frame [simp]:
  "conns (closeDataChannel p s) = conns s"
  "peerConnections (closeDataChannel p s) = peerConnections s"
  "healthCheckIntervals (closeDataChannel p s) = healthCheckIntervals s"
  "activeIntervals (closeDataChannel p s) = activeIntervals s"
  "queuedIceCandidates (closeDataChannel p s) = queuedIceCandidates s"
  "processedCandidates (closeDataChannel p s) = processedCandidates s"
  "viewerAudioElements (closeDataChannel p s) = viewerAudioElements s"
  "documentBody (closeDataChannel p s) = documentBody s"
  "viewerAudioTracks (closeDataChannel p s) = viewerAudioTracks s"
  "isFirefox (closeDataChannel p s) = isFirefox s"
  "trackStates (closeDataChannel p s) = trackStates s"
  "localStream (closeDataChannel p s) = localStream s"
  "screenStream (closeDataChannel p s) = screenStream s"
  "sentMessages (closeDataChannel p s) = sentMessages s"
  "nextTimer (closeDataChannel p s) = nextTimer s"
  "peerStateEvents (closeDataChannel p s) = peerStateEvents s"
  "streamEvents (closeDataChannel p s) = streamEvents s"
  "iceRetryTimers (closeDataChannel p s) = iceRetryTimers s"
  "onMessageCallback (closeDataChannel p s) = onMessageCallback s"
  "onStreamCallback (closeDataChannel p s) = onStreamCallback s"
  "onPeerStateCallback (closeDataChannel p s) = onPeerStateCallback s"
  by (simp_all add: closeDataChannel_def setConn_def split: option.splits)

lemma clearHealthCheck_frame [simp]:
  "conns (clearHealthCheck p s) = conns s"
  "peerConnections (clearHealthCheck p s) = peerConnections s"
  "dataChannels (clearHealthCheck p s) = dataChannels s"
  "closedChannels (clearHealthCheck p s) = closedChannels s"
  "queuedIceCandidates (clearHealthCheck p s) = queuedIceCandidates s"
  "processedCandidates (clearHealthCheck p s) = processedCandidates s"
  "viewerAudioElements (clearHealthCheck p s) = viewerAudioElements s"
  "documentBody (clearHealthCheck p s) = documentBody s"
  "viewerAudioTracks (clearHealthCheck p s) = viewerAudioTracks s"
  "isFirefox (clearHealthCheck p s) = isFirefox s"
  "trackStates (clearHealthCheck p s) = trackStates s"
  "localStream (clearHealthCheck p s) = localStream s"
  "screenStream (clearHealthCheck p s) = screenStream s"
  "sentMessages (clearHealthCheck p s) = sentMessages s"
  "nextTimer (clearHealthCheck p s) = nextTimer s"
  "peerStateEvents (clearHealthCheck p s) = peerStateEvents s"
  "streamEvents (clearHealthCheck p s) = streamEvents s"
  "iceRetryTimers (clearHealthCheck p s) = iceRetryTimers s"
  "onMessageCallback (clearHealthCheck p s) = onMessageCallback s"
  "onStreamCallback (clearHealthCheck p s) = onStreamCallback s"
  "onPeerStateCallback (clearHealthCheck p s) = onPeerStateCallback s"
  by (simp_all add: clearHealthCheck_def setConn_def split: option.splits)

lemma clearQueuedCandidates_frame [simp]:
  "conns (clearQueuedCandidates p s) = conns s"
  "peerConnections (clearQueuedCandidates p s) = peerConnections s"
  "dataChannels (clearQueuedCandidates p s) = dataChannels s"
  "closedChannels (clearQueuedCandidates p s) = closedChannels s"
  "healthCheckIntervals (clearQueuedCandidates p s) = healthCheckIntervals s"
  "activeIntervals (clearQueuedCandidates p s) = activeIntervals s"
  "processedCandidates (clearQueuedCandidates p s) = processedCandidates s"
  "viewerAudioElements (clearQueuedCandidates p s) = viewerAudioElements s"
  "documentBody (clearQueuedCandidates p s) = documentBody s"
  "viewerAudioTracks (clearQueuedCandidates p s) = viewerAudioTracks s"
  "isFirefox (clearQueuedCandidates p s) = isFirefox s"
  "trackStates (clearQueuedCandidates p s) = trackStates s"
  "localStream (clearQueuedCandidates p s) = localStream s"
  "screenStream (clearQueuedCandidates p s) = screenStream s"
  "sentMessages (clearQueuedCandidates p s) = sentMessages s"
  "nextTimer (clearQueuedCandidates p s) = nextTimer s"
  "peerStateEvents (clearQueuedCandidates p s) = peerStateEvents s"
  "streamEvents (clearQueuedCandidates p s) = streamEvents s"
  "iceRetryTimers (clearQueuedCandidates p s) = iceRetryTimers s"
  "onMessageCallback (clearQueuedCandidates p s) = onMessageCallback s"
  "onStreamCallback (clearQueuedCandidates p s) = onStreamCallback s"
  "onPeerStateCallback (clearQueuedCandidates p s) = onPeerStateCallback s"
  by (simp_all add: clearQueuedCandidates_def setConn_def split: option.splits)

lemma clearProcessedCandidates_frame [simp]:
  "conns (clearProcessedCandidates p s) = conns s"
  "peerConnections (clearProcessedCandidates p s) = peerConnections s"
  "dataChannels (clearProcessedCandidates p s) = dataChannels s"
  "closedChannels (clearProcessedCandidates p s) = closedChannels s"
  "healthCheckIntervals (clearProcessedCandidates p s) = healthCheckIntervals s"
  "activeIntervals (clearProcessedCandidates p s) = activeIntervals s"
  "queuedIceCandidates (clearProcessedCandidates p s) = queuedIceCandidates s"
  "viewerAudioElements (clearProcessedCandidates p s) = viewerAudioElements s"
  "documentBody (clearProcessedCandidates p s) = documentBody s"
  "viewerAudioTracks (clearProcessedCandidates p s) = viewerAudioTracks s"
  "isFirefox (clearProcessedCandidates p s) = isFirefox s"
  "trackStates (clearProcessedCandidates p s) = trackStates s"
  "localStream (clearProcessedCandidates p s) = localStream s"
  "screenStream (clearProcessedCandidates p s) = screenStream s"
  "sentMessages (clearProcessedCandidates p s) = sentMessages s"
  "nextTimer (clearProcessedCandidates p s) = nextTimer s"
  "peerStateEvents (clearProcessedCandidates p s) = peerStateEvents s"
  "streamEvents (clearProcessedCandidates p s) = streamEvents s"
  "iceRetryTimers (clearProcessedCandidates p s) = iceRetryTimers s"
  "onMessageCallback (clearProcessedCandidates p s) = onMessageCallback s"
  "onStreamCallback (clearProcessedCandidates p s) = onStreamCallback s"
  "onPeerStateCallback (clearProcessedCandidates p s) = onPeerStateCallback s"
  by (simp_all add: clearProcessedCandidates_def setConn_def split: option.splits)

lemma removeAudioElement_frame [simp]:
  "conns (removeAudioElement p s) = conns s"
  "peerConnections (removeAudioElement p s) = peerConnections s"
  "dataChannels (removeAudioElement p s) = dataChannels s"
  "closedChannels (removeAudioElement p s) = closedChannels s"
  "healthCheckIntervals (removeAudioElement p s) = healthCheckIntervals s"
  "activeIntervals (removeAudioElement p s) = activeIntervals s"
  "queuedIceCandidates (removeAudioElement p s) = queuedIceCandidates s"
  "processedCandidates (removeAudioElement p s) = processedCandidates s"
  "viewerAudioTracks (removeAudioElement p s) = viewerAudioTracks s"
  "isFirefox (removeAudioElement p s) = isFirefox s"
  "trackStates (removeAudioElement p s) = trackStates s"
  "localStream (removeAudioElement p s) = localStream s"
  "screenStream (removeAudioElement p s) = screenStream s"
  "sentMessages (removeAudioElement p s) = sentMessages s"
  "nextTimer (removeAudioElement p s) = nextTimer s"
  "peerStateEvents (removeAudioElement p s) = peerStateEvents s"
  "streamEvents (removeAudioElement p s) = streamEvents s"
  "iceRetryTimers (removeAudioElement p s) = iceRetryTimers s"
  "onMessageCallback (removeAudioElement p s) = onMessageCallback s"
  "onStreamCallback (removeAudioElement p s) = onStreamCallback s"
  "onPeerStateCallback (removeAudioElement p s) = onPeerStateCallback s"
  by (simp_all add: removeAudioElement_def setConn_def split: option.splits)

lemma clearViewerAudioTrack_frame [simp]:
  "conns (clearViewerAudioTrack p s) = conns s"
  "peerConnections (clearViewerAudioTrack p s) = peerConnections s"
  "dataChannels (clearViewerAudioTrack p s) = dataChannels s"
  "closedChannels (clearViewerAudioTrack p s) = closedChannels s"
  "healthCheckIntervals (clearViewerAudioTrack p s) = healthCheckIntervals s"
  "activeIntervals (clearViewerAudioTrack p s) = activeIntervals s"
  "queuedIceCandidates (clearViewerAudioTrack p s) = queuedIceCandidates s"
  "processedCandidates (clearViewerAudioTrack p s) = processedCandidates s"
  "viewerAudioElements (clearViewerAudioTrack p s) = viewerAudioElements s"
  "documentBody (clearViewerAudioTrack p s) = documentBody s"
  "isFirefox (clearViewerAudioTrack p s) = isFirefox s"
  "trackStates (clearViewerAudioTrack p s) = trackStates s"
  "localStream (clearViewerAudioTrack p s) = localStream s"
  "screenStream (clearViewerAudioTrack p s) = screenStream s"
  "sentMessages (clearViewerAudioTrack p s) = sentMessages s"
  "nextTimer (clearViewerAudioTrack p s) = nextTimer s"
  "peerStateEvents (clearViewerAudioTrack p s) = peerStateEvents s"
  "streamEvents (clearViewerAudioTrack p s) = streamEvents s"
  "iceRetryTimers (clearViewerAudioTrack p s) = iceRetryTimers s"
  "onMessageCallback (clearViewerAudioTrack p s) = onMessageCallback s"
  "onStreamCallback (clearViewerAudioTrack p s) = onStreamCallback s"
  "onPeerStateCallback (clearViewerAudioTrack p s) = onPeerStateCallback s"
  by (simp_all add: clearViewerAudioTrack_def setConn_def split: option.splits)

lemma delete_absent: "map_of al k = None \<Longrightarrow> AList.delete k al = al"
  by (simp add: map_of_eq_None_iff)

lemma closePeerConnection_registry [simp]:
  "peerConnections (closePeerConnection p s) = AList.delete p (peerConnections s)"
  by (simp add: closePeerConnection_def setConn_def delete_absent split: option.splits)

lemma closePeerConnection_conns:
  "conns (closePeerConnection p s)
     = (case map_of (peerConnections s) p of
          None \<Rightarrow> conns s
        | Some h \<Rightarrow> if h < length (conns s) then (conns s)[h := pcClose (conns s ! h)] else conns s)"
  by (simp add: closePeerConnection_def setConn_def connAt_def split: option.splits)

lemma closeDataChannel_channels [simp]:
  "dataChannels (closeDataChannel p s) = AList.delete p (dataChannels s)"
  by (simp add: closeDataChannel_def delete_absent split: option.splits)

lemma closeDataChannel_closed [simp]:
  "closedChannels (closeDataChannel p s)
     = closedChannels s @ (case map_of (dataChannels s) p of None \<Rightarrow> [] | Some ch \<Rightarrow> [ch])"
  by (simp add: closeDataChannel_def split: option.splits)

lemma clearHealthCheck_map [simp]:
  "healthCheckIntervals (clearHealthCheck p s) = AList.delete p (healthCheckIntervals s)"
  by (simp add: clearHealthCheck_def delete_absent split: option.splits)

lemma clearHealthCheck_active [simp]:
  "activeIntervals (clearHealthCheck p s)
     = (case map_of (healthCheckIntervals s) p of
          None \<Rightarrow> activeIntervals s
        | Some t \<Rightarrow> AList.delete t (activeIntervals s))"
  by (simp add: clearHealthCheck_def split: option.splits)

lemma clearQueuedCandidates_effect [simp]:
  "queuedIceCandidates (clearQueuedCandidates p s) = AList.delete p (queuedIceCandidates s)"
  by (cases "map_of (queuedIceCandidates s) p") (simp_all add: clearQueuedCandidates_def delete_absent)

lemma clearProcessedCandidates_effect [simp]:
  "processedCandidates (clearProcessedCandidates p s) = AList.delete p (processedCandidates s)"
  by (cases "map_of (processedCandidates s) p") (simp_all add: clearProcessedCandidates_def delete_absent)

lemma removeAudioElement_map [simp]:
  "viewerAudioElements (removeAudioElement p s) = AList.delete p (viewerAudioElements s)"
  by (simp add: removeAudioElement_def delete_absent split: option.splits)

lemma removeAudioElement_body [simp]:
  "documentBody (removeAudioElement p s)
     = (case map_of (viewerAudioElements s) p of
          None \<Rightarrow> documentBody s
        | Some el \<Rightarrow> removeFromBody el (documentBody s))"
  by (simp add: removeAudioElement_def split: option.splits)

lemma clearViewerAudioTrack_effect [simp]:
  "viewerAudioTracks (clearViewerAudioTrack p s) = AList.delete p (viewerAudioTracks s)"
  by (cases "map_of (viewerAudioTracks s) p") (simp_all add: clearViewerAudioTrack_def delete_absent)

lemma removePeer_registry: "map_of (peerConnections (removePeer p s)) q
   = (if q = p then None else map_of (peerConnections s) q)"
  by (simp add: removePeer_def delete_conv')

lemma twoViewers_eq:
  "twoViewers = (initial False)
      \<lparr> conns := [newPc ''viewer-1'', newPc ''viewer-2''],
        peerConnections := [(''viewer-1'', 0), (''viewer-2'', 1)] \<rparr>"
  by (simp add: twoViewers_def createPeerConnection_def initial_def Let_def)

lemma remove1_absent: "x \<notin> set xs \<Longrightarrow> remove1 x xs = xs"
  by (induction xs) auto

lemma removePeer_closes:
  assumes "map_of (peerConnections s) p = Some h" and "h < length (conns s)"
  shows "conns (removePeer p s) = (conns s)[h := pcClose (conns s ! h)]"
  using assms by (simp add: removePeer_def closePeerConnection_conns)

lemma tick_on_closed:
  assumes "map_of (activeIntervals s) t = Some h" and "h < length (conns s)"
    and "connectionState (conns s ! h) = CClosed"
  shows "conns (healthCheckTick t s) = conns s"
    and "map_of (activeIntervals (healthCheckTick t s)) t = None"
  using assms by (simp_all add: healthCheckTick_def connAt_def delete_conv')

lemma viewerConnected_eq:
  "viewerConnected =
     broadcasterReady
       \<lparr> conns := [connectedPc],
         peerConnections := [(''viewer-1'', 0)],
         peerStateEvents := [(''viewer-1'', Connecting), (''viewer-1'', Connected)],
         healthCheckIntervals := [(''viewer-1'', 2)],
         activeIntervals := [(1, 0), (2, 0)],
         nextTimer := 2 \<rparr>"
  by (simp add: viewerConnected_def broadcasterReady_def createPeerConnection_def initial_def
      Let_def firstOf_def getVideoTracks_def getAudioTracks_def setEnabled_def updTrack_def
      pcAddTrack_def newPc_def isClosed_def onConnectionStateChange_def connAt_def setConn_def
      connectedPc_def numeral_2_eq_2)

lemma viewerTalking_eq:
  "viewerTalking =
     viewerConnected
       \<lparr> dataChannels := [(''viewer-1'', 7)],
         streamEvents := [(''viewer-1'', ''viewer-1-mic'')],
         viewerAudioElements := [(''viewer-1'', newAudio ''viewer-1'' ''viewer-1-mic'')],
         documentBody := [''viewer-audio-viewer-1''] \<rparr>"
  by (simp add: viewerTalking_def viewerConnected_eq broadcasterReady_def initial_def connAt_def
      connectedPc_def onTrack_def newAudio_def audioElementId_def)


lemma viewerReplaced_eq:
  "viewerReplaced =
     viewerTalking
       \<lparr> conns := [connectedPc,
                   connectedPc\<lparr>connectionState := CNew, connectionTimeoutPending := True\<rparr>],
         peerConnections := [(''viewer-1'', 1)] \<rparr>"
  by (simp add: viewerReplaced_def viewerTalking_eq viewerConnected_eq broadcasterReady_def
      createPeerConnection_def initial_def Let_def firstOf_def getVideoTracks_def
      getAudioTracks_def setEnabled_def updTrack_def pcAddTrack_def newPc_def isClosed_def
      connectedPc_def numeral_2_eq_2)

section \<open>One connection per peer id (C2)\<close>

text \<open>
  Claim C2, as the code has it. \<^verbatim>\<open>createPeerConnection\<close> never rejects: it always returns
  a new connection and registers it under the peer id, in place of an entry that was there.
  The connections made before, the replaced one among them, stay as they were (none is
  closed), and the entries of the other peers are untouched. The registry is a map, so it
  never holds two entries for one peer id: keys that were distinct stay distinct. After
  \<^verbatim>\<open>removePeer\<close> the peer id has no entry.
\<close>

theorem createPeerConnection_registers_and_replaces:
  "fst (createPeerConnection p i s) = Inr (length (conns s))
   \<and> map_of (peerConnections (snd (createPeerConnection p i s))) p = Some (length (conns s))
   \<and> (\<forall>q. q \<noteq> p \<longrightarrow> map_of (peerConnections (snd (createPeerConnection p i s))) q
                      = map_of (peerConnections s) q)
   \<and> take (length (conns s)) (conns (snd (createPeerConnection p i s))) = conns s
   \<and> length (conns (snd (createPeerConnection p i s))) = Suc (length (conns s))
   \<and> (distinct (map fst (peerConnections s))
        \<longrightarrow> distinct (map fst (peerConnections (snd (createPeerConnection p i s)))))
   \<and> map_of (peerConnections (removePeer p s)) p = None"
  using createPeerConnection_conns[of p i s]
  by (simp add: update_conv' distinct_update removePeer_registry)

text \<open>
  Claim C2 as stated fails: with \<^verbatim>\<open>viewer-1\<close> registered and no \<^verbatim>\<open>removePeer\<close> in between, a
  second \<^verbatim>\<open>createPeerConnection\<close> for \<^verbatim>\<open>viewer-1\<close> returns a third connection and registers
  it; the first connection of \<^verbatim>\<open>viewer-1\<close> is still open.
\<close>

theorem second_create_not_rejected:
  "fst (createPeerConnection ''viewer-1'' True twoViewers) = Inr 2
   \<and> peerConnections (snd (createPeerConnection ''viewer-1'' True twoViewers))
       = [(''viewer-1'', 2), (''viewer-2'', 1)]
   \<and> map (\<lambda>pc. (closurePeer pc, isClosed pc))
         (conns (snd (createPeerConnection ''viewer-1'' True twoViewers)))
       = [(''viewer-1'', False), (''viewer-2'', False), (''viewer-1'', False)]"
  by (simp add: twoViewers_eq createPeerConnection_def initial_def Let_def newPc_def isClosed_def)

text \<open>The theorem for C2 at the same concrete input.\<close>

theorem createPeerConnection_registers_witness:
  "distinct (map fst (peerConnections twoViewers))
   \<and> fst (createPeerConnection ''viewer-1'' True twoViewers) = Inr 2
   \<and> map_of (peerConnections (snd (createPeerConnection ''viewer-1'' True twoViewers))) ''viewer-1''
       = Some 2
   \<and> map_of (peerConnections (snd (createPeerConnection ''viewer-1'' True twoViewers))) ''viewer-2''
       = Some 1
   \<and> distinct (map fst (peerConnections (snd (createPeerConnection ''viewer-1'' True twoViewers))))
   \<and> map_of (peerConnections (removePeer ''viewer-1'' twoViewers)) ''viewer-1'' = None"
proof -
  have d: "distinct (map fst (peerConnections twoViewers))"
    by (simp add: twoViewers_eq initial_def)
  have l: "length (conns twoViewers) = 2" by (simp add: twoViewers_eq initial_def)
  have r: "map_of (peerConnections twoViewers) ''viewer-2'' = Some 1"
    by (simp add: twoViewers_eq initial_def)
  show ?thesis using createPeerConnection_registers_and_replaces[of "''viewer-1''" True twoViewers] d l r by simp
qed

section \<open>\<^verbatim>\<open>disconnected\<close> removes the peer (C9)\<close>




section \<open>Health-check intervals after \<^verbatim>\<open>removePeer\<close> (C6)\<close>

text \<open>
  What \<^verbatim>\<open>removePeer\<close> does about the health-check intervals: it closes the registered
  connection and clears the one interval stored for the peer. An interval of the closed
  connection that is still running polls no statistics at its next tick and clears itself
  then.
\<close>

lemma removePeer_clears_stored_interval:
  assumes "map_of (peerConnections s) p = Some h" and "h < length (conns s)"
  shows "map_of (healthCheckIntervals (removePeer p s)) p = None
       \<and> (\<forall>t. map_of (healthCheckIntervals s) p = Some t
               \<longrightarrow> map_of (activeIntervals (removePeer p s)) t = None)
       \<and> connectionState (conns (removePeer p s) ! h) = CClosed
       \<and> (\<forall>t. map_of (activeIntervals (removePeer p s)) t = Some h
               \<longrightarrow> map getStatsCalls (conns (healthCheckTick t (removePeer p s)))
                     = map getStatsCalls (conns (removePeer p s))
                 \<and> map_of (activeIntervals (healthCheckTick t (removePeer p s))) t = None)"
proof -
  have c: "conns (removePeer p s) = (conns s)[h := pcClose (conns s ! h)]"
    by (rule removePeer_closes[OF assms])
  have cl: "connectionState (conns (removePeer p s) ! h) = CClosed"
    using c assms(2) by (simp add: pcClose_def)
  have hl: "h < length (conns (removePeer p s))" using c assms(2) by simp
  have a: "map_of (healthCheckIntervals (removePeer p s)) p = None"
    by (simp add: removePeer_def delete_conv')
  have b: "\<forall>t. map_of (healthCheckIntervals s) p = Some t
               \<longrightarrow> map_of (activeIntervals (removePeer p s)) t = None"
    by (simp add: removePeer_def delete_conv')
  have d: "\<forall>t. map_of (activeIntervals (removePeer p s)) t = Some h
               \<longrightarrow> map getStatsCalls (conns (healthCheckTick t (removePeer p s)))
                     = map getStatsCalls (conns (removePeer p s))
                 \<and> map_of (activeIntervals (healthCheckTick t (removePeer p s))) t = None"
    using tick_on_closed[OF _ hl cl] by simp
  show ?thesis using a b cl d by blast
qed

text \<open>The lemma at a concrete input.\<close>

lemma removePeer_clears_stored_interval_witness:
  "map_of (peerConnections viewerConnected) ''viewer-1'' = Some 0
   \<and> 0 < length (conns viewerConnected)
   \<and> map_of (healthCheckIntervals (removePeer ''viewer-1'' viewerConnected)) ''viewer-1'' = None
   \<and> map_of (activeIntervals (removePeer ''viewer-1'' viewerConnected)) 2 = None
   \<and> map_of (activeIntervals (removePeer ''viewer-1'' viewerConnected)) 1 = Some 0
   \<and> map getStatsCalls (conns (healthCheckTick 1 (removePeer ''viewer-1'' viewerConnected))) = [0]
   \<and> activeIntervals (healthCheckTick 1 (removePeer ''viewer-1'' viewerConnected)) = []"
proof -
  have r: "map_of (peerConnections viewerConnected) ''viewer-1'' = Some 0"
    by (simp add: viewerConnected_eq broadcasterReady_def initial_def)
  have l: "0 < length (conns viewerConnected)"
    by (simp add: viewerConnected_eq broadcasterReady_def initial_def)
  have t2: "map_of (healthCheckIntervals viewerConnected) ''viewer-1'' = Some 2"
    by (simp add: viewerConnected_eq broadcasterReady_def initial_def)
  have a: "activeIntervals (removePeer ''viewer-1'' viewerConnected) = [(1, 0)]"
    by (simp add: viewerConnected_eq broadcasterReady_def initial_def removePeer_def)
  have g: "map getStatsCalls (conns (removePeer ''viewer-1'' viewerConnected)) = [0]"
    by (simp add: viewerConnected_eq broadcasterReady_def initial_def removePeer_def
        closePeerConnection_conns pcClose_def connectedPc_def)
  have tk: "activeIntervals (healthCheckTick 1 (removePeer ''viewer-1'' viewerConnected)) = []"
    using l by (simp add: healthCheckTick_def a connAt_def removePeer_closes[OF r l] pcClose_def)
  show ?thesis using removePeer_clears_stored_interval[OF r l] r l t2 a g tk by simp
qed

text \<open>
  Claim C6 fails on the code. Every run of the connection-state handler starts an interval
  and stores it over the one stored before, so after \<^verbatim>\<open>connecting\<close> and \<^verbatim>\<open>connected\<close> two
  intervals run and only the second is stored; \<^verbatim>\<open>removePeer\<close> clears the stored one, and the
  first is still running after the removal. When the connection had been replaced in the
  registry, \<^verbatim>\<open>removePeer\<close> closes the replacement, and the interval left running polls the
  statistics of the first connection at its next tick and keeps running.
\<close>

theorem earlier_interval_survives_removePeer:
  "map_of (peerConnections viewerConnected) ''viewer-1'' = Some 0
   \<and> activeIntervals viewerConnected = [(1, 0), (2, 0)]
   \<and> healthCheckIntervals viewerConnected = [(''viewer-1'', 2)]
   \<and> activeIntervals (removePeer ''viewer-1'' viewerConnected) = [(1, 0)]
   \<and> activeIntervals (removePeer ''viewer-1'' viewerReplaced) = [(1, 0)]
   \<and> map (\<lambda>pc. (closurePeer pc, connectionState pc, getStatsCalls pc))
         (conns (removePeer ''viewer-1'' viewerReplaced))
       = [(''viewer-1'', Connected, 0), (''viewer-1'', CClosed, 0)]
   \<and> map (\<lambda>pc. (closurePeer pc, connectionState pc, getStatsCalls pc))
         (conns (healthCheckTick 1 (removePeer ''viewer-1'' viewerReplaced)))
       = [(''viewer-1'', Connected, 1), (''viewer-1'', CClosed, 0)]
   \<and> activeIntervals (healthCheckTick 1 (removePeer ''viewer-1'' viewerReplaced)) = [(1, 0)]"
proof -
  have a: "map_of (peerConnections viewerConnected) ''viewer-1'' = Some 0
   \<and> activeIntervals viewerConnected = [(1, 0), (2, 0)]
   \<and> healthCheckIntervals viewerConnected = [(''viewer-1'', 2)]
   \<and> activeIntervals (removePeer ''viewer-1'' viewerConnected) = [(1, 0)]"
    by (simp add: viewerConnected_eq broadcasterReady_def initial_def removePeer_def)
  have r: "removePeer ''viewer-1'' viewerReplaced
     = broadcasterReady
       \<lparr> conns := [connectedPc,
                   pcClose (connectedPc\<lparr>connectionState := CNew, connectionTimeoutPending := True\<rparr>)],
         peerConnections := [],
         peerStateEvents := [(''viewer-1'', Connecting), (''viewer-1'', Connected)],
         healthCheckIntervals := [],
         activeIntervals := [(1, 0)],
         nextTimer := 2,
         dataChannels := [], closedChannels := [7],
         streamEvents := [(''viewer-1'', ''viewer-1-mic'')],
         viewerAudioElements := [],
         documentBody := [] \<rparr>"
    by (simp add: removePeer_def closePeerConnection_def closeDataChannel_def clearHealthCheck_def
        clearQueuedCandidates_def clearProcessedCandidates_def removeAudioElement_def
        clearViewerAudioTrack_def viewerReplaced_eq viewerTalking_eq viewerConnected_eq
        broadcasterReady_def initial_def connAt_def setConn_def removeFromBody_def newAudio_def
        audioElementId_def)
  have b: "activeIntervals (removePeer ''viewer-1'' viewerReplaced) = [(1, 0)]
   \<and> map (\<lambda>pc. (closurePeer pc, connectionState pc, getStatsCalls pc))
         (conns (removePeer ''viewer-1'' viewerReplaced))
       = [(''viewer-1'', Connected, 0), (''viewer-1'', CClosed, 0)]"
    by (simp add: r connectedPc_def pcClose_def)
  have c: "map (\<lambda>pc. (closurePeer pc, connectionState pc, getStatsCalls pc))
         (conns (healthCheckTick 1 (removePeer ''viewer-1'' viewerReplaced)))
       = [(''viewer-1'', Connected, 1), (''viewer-1'', CClosed, 0)]
   \<and> activeIntervals (healthCheckTick 1 (removePeer ''viewer-1'' viewerReplaced)) = [(1, 0)]"
    by (simp add: r healthCheckTick_def connAt_def setConn_def pcGetStats_def connectedPc_def
        pcClose_def)
  show ?thesis using a b c by simp
qed


section \<open>Lemmas on track replacement and on the internal callbacks\<close>

lemma replaceStep_eq:
  "replaceStep t e s
     = s\<lparr>conns := (if snd e < length (conns s)
                      then (conns s)[snd e := replaceConnVideo t (conns s ! snd e)]
                      else conns s)\<rparr>"
  by (simp add: replaceStep_def connAt_def setConn_def)

lemma replaceVideoTrack_fold:
  "replaceVideoTrack t s = fold (replaceStep t) (peerConnections s) s"
proof -
  have "(\<lambda>(peerId, h) s'.
             case connAt s' h of
               None \<Rightarrow> s'
             | Some pc \<Rightarrow> setConn h (replaceConnVideo t pc) s') = replaceStep t"
    by (auto simp: replaceStep_def fun_eq_iff split: option.splits)
  then show ?thesis by (simp add: replaceVideoTrack_def)
qed

lemma replace_fold:
  "fold (replaceStep t) reg s = s\<lparr>conns := replaceInConns t reg (conns s)\<rparr>"
proof (induction reg arbitrary: s)
  case Nil
  then show ?case by (simp add: replaceInConns_def)
next
  case (Cons e reg)
  have "fold (replaceStep t) (e # reg) s = fold (replaceStep t) reg (replaceStep t e s)"
    by simp
  also have "\<dots> = (replaceStep t e s)\<lparr>conns := replaceInConns t reg (conns (replaceStep t e s))\<rparr>"
    by (rule Cons.IH)
  also have "\<dots> = s\<lparr>conns := replaceInConns t (e # reg) (conns s)\<rparr>"
    by (simp add: replaceStep_eq replaceInConns_def)
  finally show ?case .
qed

lemma replaceVideoTrack_eq:
  "replaceVideoTrack t s = s\<lparr>conns := replaceInConns t (peerConnections s) (conns s)\<rparr>"
  by (simp add: replaceVideoTrack_fold replace_fold)

lemma replaceInConns_length [simp]: "length (replaceInConns t reg cs) = length cs"
  by (induction reg arbitrary: cs) (simp_all add: replaceInConns_def)

lemma map_update_same: "f y = f (xs ! h) \<Longrightarrow> map f (xs[h := y]) = map f xs"
  by (metis list_update_id map_update)

lemma map_update_id: "(map f xs)[h := f (xs ! h)] = map f xs"
  by (metis list_update_id map_update)

lemma replaceInConns_map:
  assumes "\<And>pc. f (replaceConnVideo t pc) = f pc"
  shows "map f (replaceInConns t reg cs) = map f cs"
proof (induction reg arbitrary: cs)
  case Nil
  then show ?case by (simp add: replaceInConns_def)
next
  case (Cons e reg)
  have step: "replaceInConns t (e # reg) cs
      = replaceInConns t reg
          (if snd e < length cs then cs[snd e := replaceConnVideo t (cs ! snd e)] else cs)"
    by (simp add: replaceInConns_def)
  show ?case unfolding step using Cons.IH assms by (simp add: map_update_same)
qed

lemma replaceConnVideo_transceivers_only:
  "\<exists>trs. replaceConnVideo t pc = pc\<lparr>transceivers := trs\<rparr>"
proof (cases "replaceConnVideo t pc = pc")
  case True
  then show ?thesis by (metis rtc_pc.surjective rtc_pc.update_convs(6))
next
  case False
  then show ?thesis
    by (auto simp: replaceConnVideo_def senderReplaceTrack_def split: option.splits if_splits)
qed

lemma replaceConnVideo_restart [simp]:
  "restartIceCalls (replaceConnVideo t pc) = restartIceCalls pc"
  using replaceConnVideo_transceivers_only[of t pc] by auto

lemma fold_stopTrack_frame [simp]:
  "conns (fold stopTrack rs s) = conns s"
  "peerConnections (fold stopTrack rs s) = peerConnections s"
  "localStream (fold stopTrack rs s) = localStream s"
  by (induction rs arbitrary: s) (simp_all add: stopTrack_def updTrack_def)

lemma stopScreenShare_restart:
  "map restartIceCalls (conns (stopScreenShare s)) = map restartIceCalls (conns s)"
  by (simp add: stopScreenShare_def Let_def replaceVideoTrack_eq replaceInConns_map
      split: option.splits)

lemma withConn_restart:
  "(\<And>pc. restartIceCalls (f pc) = restartIceCalls pc)
   \<Longrightarrow> map restartIceCalls (conns (withConn h f s)) = map restartIceCalls (conns s)"
  by (simp add: withConn_def connAt_def setConn_def map_update_same split: option.splits)

lemma removePeer_restart:
  "map restartIceCalls (conns (removePeer p s)) = map restartIceCalls (conns s)"
  by (simp add: removePeer_def closePeerConnection_conns map_update_same pcClose_def
      split: option.splits)

lemma onConnectionStateChange_restart:
  "map restartIceCalls (conns (onConnectionStateChange h st s)) = map restartIceCalls (conns s)"
  by (simp add: onConnectionStateChange_def Let_def removePeer_restart connAt_def setConn_def
      map_update_same split: option.splits)

lemma healthCheckTick_restart:
  "map restartIceCalls (conns (healthCheckTick t s)) = map restartIceCalls (conns s)"
  by (simp add: healthCheckTick_def connAt_def setConn_def pcGetStats_def map_update_same
      split: option.splits)

lemma onTrack_conns [simp]: "conns (onTrack p k st s) = conns s"
  by (simp add: onTrack_def Let_def split: option.splits)

lemma onConnectionTimeout_restart:
  "map restartIceCalls (conns (onConnectionTimeout h s))
     = (if isFirefox s
           \<and> (case connAt s h of
                 None \<Rightarrow> False
               | Some pc \<Rightarrow> connectionTimeoutPending pc
                             \<and> (connectionState pc = Connecting \<or> iceConnectionState pc = Checking))
        then (map restartIceCalls (conns s))[h := Suc (restartIceCalls (conns s ! h))]
        else map restartIceCalls (conns s))"
  by (simp add: onConnectionTimeout_def connAt_def setConn_def Let_def map_update_id map_update
      split: option.splits)

lemma viewerConnecting_eq:
  "viewerConnecting ff =
     (initial ff)
       \<lparr> conns := [(pcAddTransceiver Video RecvOnly
                      (pcAddTransceiver Audio SendRecv (newPc ''broadcaster'')))
                     \<lparr>connectionState := Connecting\<rparr>],
         peerConnections := [(''broadcaster'', 0)],
         healthCheckIntervals := [(''broadcaster'', 1)],
         activeIntervals := [(1, 0)],
         nextTimer := 1 \<rparr>"
  by (simp add: viewerConnecting_def createPeerConnection_def initial_def Let_def
      onConnectionStateChange_def connAt_def setConn_def pcAddTransceiver_def newPc_def)

section \<open>ICE restart (C4)\<close>

text \<open>
  Claim C4, as the code has it. Of all callbacks and timers of the service, only the
  connection timeout calls \<^verbatim>\<open>pc.restartIce\<close>, and only on Firefox: when it fires while it is
  still pending and the connection is \<^verbatim>\<open>connecting\<close> or its ICE state is \<^verbatim>\<open>checking\<close>, it calls
  \<^verbatim>\<open>restartIce\<close> once on that connection. Every other callback, and the timeout on any other
  browser, leaves the number of \<^verbatim>\<open>restartIce\<close> calls of every connection as it was.
\<close>

theorem restartIce_only_on_firefox_timeout:
  "map restartIceCalls (conns (fire ev s))
     = (case ev of
          ConnectionTimeoutFired h \<Rightarrow>
            if isFirefox s
               \<and> (case connAt s h of
                     None \<Rightarrow> False
                   | Some pc \<Rightarrow> connectionTimeoutPending pc
                                 \<and> (connectionState pc = Connecting
                                      \<or> iceConnectionState pc = Checking))
            then (map restartIceCalls (conns s))[h := Suc (restartIceCalls (conns s ! h))]
            else map restartIceCalls (conns s)
        | _ \<Rightarrow> map restartIceCalls (conns s))"
proof (cases ev)
  case (ConnectionTimeoutFired h)
  then show ?thesis by (simp add: onConnectionTimeout_restart)
next
  case (ConnectionStateChanged h st)
  then show ?thesis by (simp add: onConnectionStateChange_restart)
next
  case (IceConnectionStateChanged h st)
  then show ?thesis by (simp add: withConn_restart)
next
  case (FirefoxNudgeTimerFired h)
  then show ?thesis by (simp add: withConn_restart pcGetStats_def)
next
  case (StuckConnectingTimerFired h)
  then show ?thesis by (simp add: withConn_restart pcGetStats_def)
next
  case (HealthCheckTick t)
  then show ?thesis by (simp add: healthCheckTick_restart)
next
  case (TrackArrived h k st)
  then show ?thesis by (simp split: option.splits)
next
  case (VideoTrackUnmuted h st)
  then show ?thesis by (simp split: option.splits)
next
  case (TrackStatsTimerFired h)
  then show ?thesis by (simp add: withConn_restart pcGetStats_def)
next
  case (IceCandidateGathered h c)
  then show ?thesis by (simp split: option.splits)
next
  case (DataChannelOpened h ch)
  then show ?thesis by (simp split: option.splits)
next
  case (DataChannelClosed h)
  then show ?thesis by (simp split: option.splits)
next
  case IceRetryTimerFired
  then show ?thesis
    by (cases "iceRetryTimers s")
       (auto simp: withConn_restart nativeAddIce_def split: prod.splits)
next
  case ScreenTrackEnded
  then show ?thesis by (simp add: stopScreenShare_restart)
qed

text \<open>
  Claim C4 as stated fails: on Firefox, a connection still \<^verbatim>\<open>connecting\<close> when its timeout
  fires gets an ICE restart that no caller asked for.
\<close>

theorem firefox_timeout_restarts_ice:
  "isFirefox (viewerConnecting True)
   \<and> map restartIceCalls (conns (viewerConnecting True)) = [0]
   \<and> map restartIceCalls (conns (fire (ConnectionTimeoutFired 0) (viewerConnecting True))) = [1]"
  by (simp add: viewerConnecting_eq initial_def onConnectionTimeout_def connAt_def setConn_def
      pcAddTransceiver_def newPc_def)

text \<open>
  The theorem for C4 at concrete inputs: the same timeout on another browser, and a
  health-check tick on Firefox, restart nothing.
\<close>

theorem restartIce_only_on_firefox_timeout_witness:
  "map restartIceCalls (conns (fire (ConnectionTimeoutFired 0) (viewerConnecting False))) = [0]
   \<and> map restartIceCalls (conns (fire (HealthCheckTick 1) (viewerConnecting True))) = [0]"
proof -
  have a: "map restartIceCalls (conns (viewerConnecting ff)) = [0]" for ff
    by (simp add: viewerConnecting_eq initial_def pcAddTransceiver_def newPc_def)
  have b: "\<not> isFirefox (viewerConnecting False)"
    by (simp add: viewerConnecting_eq initial_def)
  show ?thesis
    using restartIce_only_on_firefox_timeout[of "ConnectionTimeoutFired 0" "viewerConnecting False"]
      restartIce_only_on_firefox_timeout[of "HealthCheckTick 1" "viewerConnecting True"] a b
    by simp
qed

section \<open>Lemmas on renegotiation and on the playback elements\<close>

lemma renegotiate_sends:
  assumes "getPc s p = Some (h, pc)"
  shows "renegotiate p made s =
     (case made of
        None \<Rightarrow> (Inl NativeError, s)
      | Some off \<Rightarrow>
          if signalingState pc = Stable \<or> signalingState pc = HaveLocalOffer
          then (Inr (),
                (setConn h (pc\<lparr>signalingState := HaveLocalOffer\<rparr>) s)
                  \<lparr>sentMessages := sentMessages s
                     @ (if onMessageCallback s
                        then [OfferMsg (currentStreamId s) (myClientId s) p off True]
                        else [])\<rparr>)
          else (Inl NativeError, s))"
  using assms
  by (auto simp: renegotiate_def createAndSetLocalOffer_def setConn_def Let_def split: option.splits)

lemma renegotiationOffers_append:
  "renegotiationOffers p (s\<lparr>sentMessages := sentMessages s @ ms\<rparr>)
     = renegotiationOffers p s @ filter (isRenegotiationFor p) ms"
  by (simp add: renegotiationOffers_def)

lemma renegotiate_offers:
  assumes "getPc s p = Some (h, pc)" and "fst (renegotiate p made s) = Inr ()"
  shows "\<exists>off. made = Some off
         \<and> renegotiationOffers p (snd (renegotiate p made s))
             = renegotiationOffers p s
               @ (if onMessageCallback s
                  then [OfferMsg (currentStreamId s) (myClientId s) p off True] else [])
         \<and> map signalingState (conns (snd (renegotiate p made s)))
             = (map signalingState (conns s))[h := HaveLocalOffer]"
  using assms(2) unfolding renegotiate_sends[OF assms(1)]
  by (cases made)
     (auto simp: renegotiationOffers_def isRenegotiationFor_def setConn_def map_update
           split: if_splits)

lemma enableViewerAudio_unfold:
  assumes "getPc s p = Some (h, pc)"
  shows "\<exists>pc'. enableViewerAudio p t made s
           = (Inl NativeError, s\<lparr>viewerAudioTracks := AList.update p t (viewerAudioTracks s)\<rparr>)
         \<or> (enableViewerAudio p t made s
              = renegotiate p made
                  (setConn h pc' (s\<lparr>viewerAudioTracks := AList.update p t (viewerAudioTracks s)\<rparr>))
            \<and> signalingState pc' = signalingState pc)"
proof -
  let ?r = "(case find isSendingAudio (transceivers pc) of
                      Some tr \<Rightarrow>
                        if senderTrack tr = None
                        then senderReplaceTrack isSendingAudio t pc
                        else pcAddTrack t pc
                    | None \<Rightarrow> pcAddTrack t pc)"
  have sig: "\<And>pc'. ?r = Some pc' \<Longrightarrow> signalingState pc' = signalingState pc"
    by (auto simp: senderReplaceTrack_def pcAddTrack_def Let_def split: option.splits if_splits)
  show ?thesis
  proof (cases ?r)
    case None
    then show ?thesis using assms by (simp add: enableViewerAudio_def Let_def)
  next
    case (Some pc')
    then show ?thesis using assms sig[OF Some]
      by (simp add: enableViewerAudio_def Let_def) blast
  qed
qed

lemma getPc_setConn':
  "getPc s p = Some (h, pc) \<Longrightarrow> peerConnections s' = peerConnections s \<Longrightarrow> conns s' = conns s
   \<Longrightarrow> getPc (setConn h pc' s') p = Some (h, pc')"
  by (auto simp: getPc_def connAt_def setConn_def split: option.splits if_splits)

lemma enableViewerAudio_offers:
  assumes "getPc s p = Some (h, pc)" and "fst (enableViewerAudio p t made s) = Inr ()"
  shows "\<exists>off. made = Some off
         \<and> renegotiationOffers p (snd (enableViewerAudio p t made s))
             = renegotiationOffers p s
               @ (if onMessageCallback s
                  then [OfferMsg (currentStreamId s) (myClientId s) p off True] else [])"
proof -
  let ?s1 = "s\<lparr>viewerAudioTracks := AList.update p t (viewerAudioTracks s)\<rparr>"
  obtain pc' where e: "enableViewerAudio p t made s = renegotiate p made (setConn h pc' ?s1)"
    using enableViewerAudio_unfold[OF assms(1), of t made] assms(2) by auto
  have g: "getPc (setConn h pc' ?s1) p = Some (h, pc')"
    by (rule getPc_setConn'[OF assms(1)]) simp_all
  show ?thesis
    using renegotiate_offers[OF g, of made] assms(2)
    by (auto simp: e renegotiationOffers_def setConn_def)
qed

lemma disableViewerAudio_offers:
  assumes "getPc s p = Some (h, pc)" and "map_of (viewerAudioTracks s) p = Some t"
    and "fst (disableViewerAudio p made s) = Inr ()"
  shows "\<exists>off. made = Some off
         \<and> renegotiationOffers p (snd (disableViewerAudio p made s))
             = renegotiationOffers p s
               @ (if onMessageCallback s
                  then [OfferMsg (currentStreamId s) (myClientId s) p off True] else [])"
proof -
  let ?r = "(if find (\<lambda>tr. senderTrack tr = Some t) (transceivers pc) \<noteq> None
                         then pcRemoveTrack (\<lambda>tr. senderTrack tr = Some t) pc
                         else Some pc)"
  obtain pc' where r: "?r = Some pc'"
    using assms by (cases ?r) (simp_all add: disableViewerAudio_def Let_def)
  let ?s1 = "(stopTrack t (setConn h pc' s))\<lparr>viewerAudioTracks := AList.delete p (viewerAudioTracks s)\<rparr>"
  have e: "disableViewerAudio p made s = renegotiate p made ?s1"
    using assms(1,2) r by (simp add: disableViewerAudio_def Let_def)
  have g: "getPc ?s1 p = Some (h, pc')"
    using assms(1)
    by (auto simp: getPc_def connAt_def setConn_def stopTrack_def updTrack_def
        split: option.splits if_splits)
  have sm: "sentMessages ?s1 = sentMessages s" "currentStreamId ?s1 = currentStreamId s"
    "myClientId ?s1 = myClientId s" "onMessageCallback ?s1 = onMessageCallback s"
    by (simp_all add: setConn_def stopTrack_def updTrack_def)
  show ?thesis
    using renegotiate_offers[OF g, of made] assms(3) sm
    by (auto simp: e renegotiationOffers_def)
qed

lemma audioElementId_inj [simp]: "(audioElementId a = audioElementId b) = (a = b)"
  by (simp add: audioElementId_def)

lemma update_absent: "map_of al k = None \<Longrightarrow> AList.update k v al = al @ [(k, v)]"
  by (induction al) (auto split: if_splits)

lemma update_present_map:
  "map_of al k = Some v0 \<Longrightarrow> f (k, v) = f (k, v0) \<Longrightarrow> map f (AList.update k v al) = map f al"
  by (induction al) (auto split: if_splits)

lemma update_present_all:
  "list_all P al \<Longrightarrow> P (k, v) \<Longrightarrow> list_all P (AList.update k v al)"
  by (induction al) (auto split: if_splits)

lemma count_key:
  "distinct (map fst al) \<Longrightarrow>
     length (filter (\<lambda>e. fst e = k) al) = (if map_of al k = None then 0 else 1)"
proof (induction al)
  case Nil then show ?case by simp
next
  case (Cons e al)
  then show ?case
    by (cases e) (auto simp: map_of_eq_None_iff filter_empty_conv image_iff)
qed

lemma body_ids:
  "list_all (\<lambda>e. elId (snd e) = audioElementId (fst e)) al
   \<Longrightarrow> map (\<lambda>e. elId (snd e)) al = map (\<lambda>e. audioElementId (fst e)) al"
  by (induction al) auto

lemma sinks_in_body:
  assumes "sinkInv s"
  shows "length (sinksInBody p s) = length (sinksOf p s)"
proof -
  have la: "list_all (\<lambda>e. elId (snd e) = audioElementId (fst e)) (viewerAudioElements s)"
    using assms by (simp add: sinkInv_def)
  have "documentBody s = map (\<lambda>e. elId (snd e)) (viewerAudioElements s)"
    using assms by (simp add: sinkInv_def)
  then have "documentBody s = map (\<lambda>e. audioElementId (fst e)) (viewerAudioElements s)"
    using body_ids[OF la] by simp
  then show ?thesis by (simp add: sinksInBody_def sinksOf_def filter_map comp_def)
qed

lemma sinks_count:
  "sinkInv s \<Longrightarrow> length (sinksOf p s) = (if map_of (viewerAudioElements s) p = None then 0 else 1)"
  by (simp add: sinkInv_def sinksOf_def count_key)

lemma sinkInv_initial: "sinkInv (initial ff)"
  by (simp add: sinkInv_def initial_def)

lemma onTrack_elements_gen:
  "viewerAudioElements (onTrack p k st s)
     = (if k = Audio \<and> localStream s \<noteq> None
        then (case st of
                None \<Rightarrow> viewerAudioElements s
              | Some x \<Rightarrow>
                  AList.update p
                    (case map_of (viewerAudioElements s) p of
                       None \<Rightarrow> newAudio p x
                     | Some el \<Rightarrow> el\<lparr>srcObject := Some x, muted := False, volumePercent := 100\<rparr>)
                    (viewerAudioElements s))
        else viewerAudioElements s)"
  by (cases "localStream s"; cases st; cases "map_of (viewerAudioElements s) p")
     (simp_all add: onTrack_def Let_def)

lemma onTrack_elements:
  "viewerAudioElements (onTrack p Audio (Some x) s)
     = (if localStream s = None then viewerAudioElements s
        else AList.update p
               (case map_of (viewerAudioElements s) p of
                  None \<Rightarrow> newAudio p x
                | Some el \<Rightarrow> el\<lparr>srcObject := Some x, muted := False, volumePercent := 100\<rparr>)
               (viewerAudioElements s))"
  by (simp add: onTrack_elements_gen)

lemma onTrack_body:
  "documentBody (onTrack p k st s)
     = (if k = Audio \<and> localStream s \<noteq> None \<and> map_of (viewerAudioElements s) p = None
        then documentBody s @ (case st of None \<Rightarrow> [] | Some x \<Rightarrow> [audioElementId p])
        else documentBody s)"
  by (cases "localStream s"; cases st; cases "map_of (viewerAudioElements s) p")
     (simp_all add: onTrack_def Let_def newAudio_def)

lemma onTrack_sinkInv:
  assumes "sinkInv s"
  shows "sinkInv (onTrack p k st s)"
proof (cases "k = Audio \<and> localStream s \<noteq> None")
  case False
  then have e: "viewerAudioElements (onTrack p k st s) = viewerAudioElements s"
    by (cases "localStream s") (simp_all add: onTrack_elements_gen)
  from False have b: "documentBody (onTrack p k st s) = documentBody s"
    by (cases "localStream s") (simp_all add: onTrack_body)
  show ?thesis using assms unfolding sinkInv_def e b .
next
  case True
  then obtain ls where ls: "localStream s = Some ls" and ka: "k = Audio" by auto
  show ?thesis
  proof (cases st)
    case None
    then show ?thesis using assms ls ka
      by (simp add: sinkInv_def onTrack_elements_gen onTrack_body)
  next
    case (Some x)
    show ?thesis
    proof (cases "map_of (viewerAudioElements s) p")
      case None
      have e: "viewerAudioElements (onTrack p k st s) = viewerAudioElements s @ [(p, newAudio p x)]"
        using ls ka Some None by (simp add: onTrack_elements_gen update_absent)
      have b: "documentBody (onTrack p k st s) = documentBody s @ [audioElementId p]"
        using ls ka Some None by (simp add: onTrack_body)
      have n: "p \<notin> fst ` set (viewerAudioElements s)"
        using None by (simp add: map_of_eq_None_iff)
      show ?thesis using assms n unfolding sinkInv_def e b by (simp add: newAudio_def)
    next
      case (Some el)
      let ?el' = "el\<lparr>srcObject := Some x, muted := False, volumePercent := 100\<rparr>"
      have e: "viewerAudioElements (onTrack p k st s)
                 = AList.update p ?el' (viewerAudioElements s)"
        using ls ka \<open>st = Some x\<close> Some by (simp add: onTrack_elements_gen)
      have b: "documentBody (onTrack p k st s) = documentBody s"
        using Some by (simp add: onTrack_body)
      have m: "map (\<lambda>e. elId (snd e)) (AList.update p ?el' (viewerAudioElements s))
               = map (\<lambda>e. elId (snd e)) (viewerAudioElements s)"
        by (rule update_present_map[OF Some]) simp
      have el: "elId el = audioElementId p"
        using assms map_of_SomeD[OF Some] by (auto simp: sinkInv_def list_all_iff)
      have a: "list_all (\<lambda>e. elId (snd e) = audioElementId (fst e))
                 (AList.update p ?el' (viewerAudioElements s))"
        using assms el by (intro update_present_all) (simp_all add: sinkInv_def)
      show ?thesis using assms m a unfolding sinkInv_def e b by (simp add: distinct_update)
    qed
  qed
qed

lemma onTrack_audio_sink:
  assumes "sinkInv s" and "localStream s \<noteq> None"
  shows "length (sinksOf p (onTrack p Audio (Some x) s)) = 1"
    and "length (sinksInBody p (onTrack p Audio (Some x) s)) = 1"
    and "\<exists>el. map_of (viewerAudioElements (onTrack p Audio (Some x) s)) p = Some el
              \<and> srcObject el = Some x"
    and "map_of (viewerAudioElements s) p \<noteq> None
          \<longrightarrow> documentBody (onTrack p Audio (Some x) s) = documentBody s"
proof -
  have inv: "sinkInv (onTrack p Audio (Some x) s)" by (rule onTrack_sinkInv[OF assms(1)])
  have m: "map_of (viewerAudioElements (onTrack p Audio (Some x) s)) p \<noteq> None"
    using assms(2) by (auto simp: onTrack_elements update_conv')
  show "length (sinksOf p (onTrack p Audio (Some x) s)) = 1"
    using sinks_count[OF inv, of p] m by simp
  then show "length (sinksInBody p (onTrack p Audio (Some x) s)) = 1"
    using sinks_in_body[OF inv, of p] by simp
  show "\<exists>el. map_of (viewerAudioElements (onTrack p Audio (Some x) s)) p = Some el
              \<and> srcObject el = Some x"
    using assms(2)
    by (cases "map_of (viewerAudioElements s) p")
       (auto simp: onTrack_elements update_conv' newAudio_def)
  show "map_of (viewerAudioElements s) p \<noteq> None
          \<longrightarrow> documentBody (onTrack p Audio (Some x) s) = documentBody s"
    by (simp add: onTrack_body)
qed

lemma remove_id:
  "distinct (map fst al) \<Longrightarrow>
     remove1 (audioElementId p) (map (\<lambda>e. audioElementId (fst e)) al)
       = map (\<lambda>e. audioElementId (fst e)) (AList.delete p al)"
proof (induction al)
  case Nil then show ?case by simp
next
  case (Cons e al)
  show ?case
  proof (cases "fst e = p")
    case True
    then have "p \<notin> fst ` set al" using Cons.prems by auto
    then show ?thesis using True by (simp add: AList.delete_id)
  next
    case False
    then show ?thesis using Cons by simp
  qed
qed

lemma list_all_delete: "list_all P al \<Longrightarrow> list_all P (AList.delete k al)"
  by (induction al) auto

lemma removeAudioElement_sinkInv:
  assumes "sinkInv s"
  shows "sinkInv (removeAudioElement p s)"
proof (cases "map_of (viewerAudioElements s) p")
  case None
  then show ?thesis using assms by (simp add: removeAudioElement_def)
next
  case (Some el)
  have d: "distinct (map fst (viewerAudioElements s))" using assms by (simp add: sinkInv_def)
  have la: "list_all (\<lambda>e. elId (snd e) = audioElementId (fst e)) (viewerAudioElements s)"
    using assms by (simp add: sinkInv_def)
  have bd: "documentBody s = map (\<lambda>e. audioElementId (fst e)) (viewerAudioElements s)"
    using assms body_ids[OF la] by (simp add: sinkInv_def)
  have el: "elId el = audioElementId p"
    using la map_of_SomeD[OF Some] by (auto simp: list_all_iff)
  have la': "list_all (\<lambda>e. elId (snd e) = audioElementId (fst e))
               (AList.delete p (viewerAudioElements s))"
    by (rule list_all_delete[OF la])
  have "removeFromBody el (documentBody s) = remove1 (audioElementId p) (documentBody s)"
    by (simp add: removeFromBody_def el remove1_absent)
  also have "\<dots> = map (\<lambda>e. audioElementId (fst e)) (AList.delete p (viewerAudioElements s))"
    unfolding bd by (rule remove_id[OF d])
  also have "\<dots> = map (\<lambda>e. elId (snd e)) (AList.delete p (viewerAudioElements s))"
    by (rule body_ids[OF la', symmetric])
  finally have b: "removeFromBody el (documentBody s)
      = map (\<lambda>e. elId (snd e)) (AList.delete p (viewerAudioElements s))" .
  show ?thesis
    using d la' b Some by (simp add: sinkInv_def removeAudioElement_def distinct_delete)
qed

lemma sinkInv_cong:
  "viewerAudioElements s1 = viewerAudioElements s2 \<Longrightarrow> documentBody s1 = documentBody s2
   \<Longrightarrow> sinkInv s1 = sinkInv s2"
  by (simp add: sinkInv_def)

lemma removePeer_sinkInv:
  assumes "sinkInv s"
  shows "sinkInv (removePeer p s)"
proof -
  let ?s5 = "clearProcessedCandidates p (clearQueuedCandidates p (clearHealthCheck p
               (closeDataChannel p (closePeerConnection p s))))"
  have "sinkInv ?s5 = sinkInv s" by (rule sinkInv_cong) simp_all
  then have i: "sinkInv (removeAudioElement p ?s5)"
    using assms removeAudioElement_sinkInv by blast
  have "sinkInv (removePeer p s) = sinkInv (removeAudioElement p ?s5)"
    unfolding removePeer_def by (rule sinkInv_cong) simp_all
  then show ?thesis using i by simp
qed

lemma cleanup_sinkInv: "sinkInv s \<Longrightarrow> sinkInv (cleanupViewerAudioElement p s)"
proof -
  have "cleanupViewerAudioElement p s = removeAudioElement p s"
    by (simp add: cleanupViewerAudioElement_def removeAudioElement_def)
  then show "sinkInv s \<Longrightarrow> sinkInv (cleanupViewerAudioElement p s)"
    by (simp add: removeAudioElement_sinkInv)
qed

lemma viewerWithMic_getPc:
  "getPc viewerWithMic ''broadcaster''
     = Some (0, pcAddTransceiver Video RecvOnly (pcAddTransceiver Audio SendRecv (newPc ''broadcaster'')))"
  by (simp add: viewerWithMic_def viewerJoined_eq getPc_def connAt_def initial_def)

lemma micOn_eq:
  "micOn = viewerWithMic
     \<lparr> conns := [micPc 0], sentMessages := [renegOffer],
       viewerAudioTracks := [(''broadcaster'', (Audio, 0))] \<rparr>"
  by (simp add: micOn_def enableViewerAudio_def viewerWithMic_getPc Let_def)
     (simp add: viewerWithMic_def viewerJoined_eq initial_def pcAddTransceiver_def newPc_def
        isSendingAudio_def senderReplaceTrack_def isClosed_def renegotiate_def getPc_def
        connAt_def setConn_def createAndSetLocalOffer_def micPc_def renegOffer_def)

lemma micOn_getPc: "getPc micOn ''broadcaster'' = Some (0, micPc 0)"
  by (simp add: micOn_eq viewerWithMic_def viewerJoined_eq getPc_def connAt_def initial_def)

lemma micOff_eq:
  "snd (disableViewerAudio ''broadcaster'' (Some someOffer) micOn)
     = viewerWithMic
         \<lparr> conns := [(micPc 0)\<lparr>transceivers :=
                         [\<lparr>receiverKind = Audio, direction = RecvOnly, senderTrack = None\<rparr>,
                          \<lparr>receiverKind = Video, direction = RecvOnly, senderTrack = None\<rparr>]\<rparr>],
           sentMessages := [renegOffer, renegOffer],
           viewerAudioTracks := [],
           trackStates := [\<lparr>enabled = True, readyState = Ended\<rparr>,
                           \<lparr>enabled = True, readyState = Live\<rparr>] \<rparr>"
  by (simp add: disableViewerAudio_def micOn_getPc Let_def)
     (simp add: micOn_eq viewerWithMic_def viewerJoined_eq initial_def micPc_def
        pcRemoveTrack_def isClosed_def renegotiate_def getPc_def numeral_2_eq_2
        connAt_def setConn_def createAndSetLocalOffer_def renegOffer_def stopTrack_def
        updTrack_def)

lemma onTrack_no_sink:
  "k \<noteq> Audio \<or> localStream s = None \<or> st = None
   \<Longrightarrow> viewerAudioElements (onTrack p k st s) = viewerAudioElements s
       \<and> documentBody (onTrack p k st s) = documentBody s"
  by (cases "localStream s"; cases st) (auto simp: onTrack_elements_gen onTrack_body)

lemma sinks_at_most_one:
  "sinkInv s \<Longrightarrow> length (sinksOf q s) \<le> 1 \<and> length (sinksInBody q s) = length (sinksOf q s)"
  by (simp add: sinks_count sinks_in_body)

lemma viewerJoined_getPc:
  "getPc viewerJoined ''broadcaster''
     = Some (0, pcAddTransceiver Video RecvOnly (pcAddTransceiver Audio SendRecv (newPc ''broadcaster'')))"
  by (simp add: viewerJoined_eq getPc_def connAt_def initial_def)

lemma enable_without_callback:
  "\<not> onMessageCallback viewerJoined
   \<and> fst (enableViewerAudio ''broadcaster'' (Audio, 0) (Some someOffer) viewerJoined) = Inr ()
   \<and> sentMessages (snd (enableViewerAudio ''broadcaster'' (Audio, 0) (Some someOffer) viewerJoined)) = []"
  by (simp add: enableViewerAudio_def viewerJoined_getPc Let_def)
     (simp add: viewerJoined_eq initial_def pcAddTransceiver_def newPc_def
        isSendingAudio_def senderReplaceTrack_def isClosed_def renegotiate_def getPc_def
        connAt_def setConn_def createAndSetLocalOffer_def someOffer_def)

section \<open>Viewer audio: offers and playback elements (C5)\<close>

text \<open>
  Claim C5, as the code has it. For a registered peer, every call of \<^verbatim>\<open>enableViewerAudio\<close>
  that returns normally hands exactly one more renegotiation offer for that peer to the
  message callback when a callback is set, and none when no callback is set; so does every
  such call of \<^verbatim>\<open>disableViewerAudio\<close> for a peer with a stored track. This holds whatever the
  signalling state: there is no record of an offer under way and no merging of requests.

  On the broadcaster side the map and the page agree on the playback elements (\<open>sinkInv\<close>:
  the map has one entry per peer and the page holds the elements of the map, each under the
  id made from its peer id). This holds in the initial state and is kept by \<^verbatim>\<open>ontrack\<close>,
  \<^verbatim>\<open>removePeer\<close> and \<^verbatim>\<open>cleanupViewerAudioElement\<close>, and in such a state no peer has more
  than one element. In such a state, after an audio track with a stream arrives for a peer
  while the local stream is set, there is exactly one element for that peer, in the map and
  in the page, playing that stream; when the peer had an element already the page is
  unchanged, the element is updated in place. A track that is not audio, or arrives without a
  stream, or arrives while no local stream is set, creates no element and changes none.
\<close>

theorem one_offer_per_call_one_sink_per_peer:
  "(getPc s p \<noteq> None \<and> fst (enableViewerAudio p t made s) = Inr ()
      \<longrightarrow> length (renegotiationOffers p (snd (enableViewerAudio p t made s)))
            = length (renegotiationOffers p s) + (if onMessageCallback s then 1 else 0))
   \<and> (getPc s p \<noteq> None \<and> map_of (viewerAudioTracks s) p \<noteq> None
        \<and> fst (disableViewerAudio p made s) = Inr ()
      \<longrightarrow> length (renegotiationOffers p (snd (disableViewerAudio p made s)))
            = length (renegotiationOffers p s) + (if onMessageCallback s then 1 else 0))
   \<and> sinkInv (initial ff)
   \<and> (sinkInv s \<longrightarrow> sinkInv (onTrack p k st s) \<and> sinkInv (removePeer p s)
                     \<and> sinkInv (cleanupViewerAudioElement p s))
   \<and> (sinkInv s \<longrightarrow> length (sinksOf q s) \<le> 1
                     \<and> length (sinksInBody q s) = length (sinksOf q s))
   \<and> (sinkInv s \<and> localStream s \<noteq> None
      \<longrightarrow> length (sinksOf p (onTrack p Audio (Some x) s)) = 1
        \<and> length (sinksInBody p (onTrack p Audio (Some x) s)) = 1
        \<and> (\<exists>el. map_of (viewerAudioElements (onTrack p Audio (Some x) s)) p = Some el
                 \<and> srcObject el = Some x)
        \<and> (map_of (viewerAudioElements s) p \<noteq> None
             \<longrightarrow> documentBody (onTrack p Audio (Some x) s) = documentBody s))
   \<and> (k \<noteq> Audio \<or> localStream s = None \<or> st = None
      \<longrightarrow> viewerAudioElements (onTrack p k st s) = viewerAudioElements s
        \<and> documentBody (onTrack p k st s) = documentBody s)"
proof -
  have A: "getPc s p \<noteq> None \<and> fst (enableViewerAudio p t made s) = Inr ()
      \<longrightarrow> length (renegotiationOffers p (snd (enableViewerAudio p t made s)))
            = length (renegotiationOffers p s) + (if onMessageCallback s then 1 else 0)"
  proof (intro impI, elim conjE)
    assume g: "getPc s p \<noteq> None"
      and ok: "fst (enableViewerAudio p t made s) = Inr ()"
    obtain h pc where hp: "getPc s p = Some (h, pc)" using g by (cases "getPc s p") auto
    obtain off where "renegotiationOffers p (snd (enableViewerAudio p t made s))
             = renegotiationOffers p s
               @ (if onMessageCallback s
                  then [OfferMsg (currentStreamId s) (myClientId s) p off True] else [])"
      using enableViewerAudio_offers[OF hp ok] by blast
    then show "length (renegotiationOffers p (snd (enableViewerAudio p t made s)))
            = length (renegotiationOffers p s) + (if onMessageCallback s then 1 else 0)" by simp
  qed
  have B: "getPc s p \<noteq> None \<and> map_of (viewerAudioTracks s) p \<noteq> None
        \<and> fst (disableViewerAudio p made s) = Inr ()
      \<longrightarrow> length (renegotiationOffers p (snd (disableViewerAudio p made s)))
            = length (renegotiationOffers p s) + (if onMessageCallback s then 1 else 0)"
  proof (intro impI, elim conjE)
    assume g: "getPc s p \<noteq> None" and tr: "map_of (viewerAudioTracks s) p \<noteq> None"
      and ok: "fst (disableViewerAudio p made s) = Inr ()"
    obtain h pc where hp: "getPc s p = Some (h, pc)" using g by (cases "getPc s p") auto
    obtain a where ta: "map_of (viewerAudioTracks s) p = Some a" using tr by blast
    obtain off where "renegotiationOffers p (snd (disableViewerAudio p made s))
             = renegotiationOffers p s
               @ (if onMessageCallback s
                  then [OfferMsg (currentStreamId s) (myClientId s) p off True] else [])"
      using disableViewerAudio_offers[OF hp ta ok] by blast
    then show "length (renegotiationOffers p (snd (disableViewerAudio p made s)))
            = length (renegotiationOffers p s) + (if onMessageCallback s then 1 else 0)" by simp
  qed
  have I: "sinkInv (initial ff)" by (rule sinkInv_initial)
  have C: "sinkInv s \<longrightarrow> sinkInv (onTrack p k st s) \<and> sinkInv (removePeer p s)
                     \<and> sinkInv (cleanupViewerAudioElement p s)"
    using onTrack_sinkInv removePeer_sinkInv cleanup_sinkInv by blast
  have E: "sinkInv s \<longrightarrow> length (sinksOf q s) \<le> 1
                     \<and> length (sinksInBody q s) = length (sinksOf q s)"
    using sinks_at_most_one by blast
  have D: "sinkInv s \<and> localStream s \<noteq> None
      \<longrightarrow> length (sinksOf p (onTrack p Audio (Some x) s)) = 1
        \<and> length (sinksInBody p (onTrack p Audio (Some x) s)) = 1
        \<and> (\<exists>el. map_of (viewerAudioElements (onTrack p Audio (Some x) s)) p = Some el
                 \<and> srcObject el = Some x)
        \<and> (map_of (viewerAudioElements s) p \<noteq> None
             \<longrightarrow> documentBody (onTrack p Audio (Some x) s) = documentBody s)"
    using onTrack_audio_sink[of s p x] by (intro impI) (elim conjE, intro conjI, assumption+)
  have F: "k \<noteq> Audio \<or> localStream s = None \<or> st = None
      \<longrightarrow> viewerAudioElements (onTrack p k st s) = viewerAudioElements s
        \<and> documentBody (onTrack p k st s) = documentBody s"
    using onTrack_no_sink by blast
  show ?thesis by (intro conjI) (rule A B I C E D F)+
qed

text \<open>
  Claim C5 as stated fails: the first enable leaves the connection in
  \<^verbatim>\<open>have-local-offer\<close>; the disable and the second enable that follow, with that offer still
  unanswered, each send an offer of their own. Three offers are sent, not one.
\<close>

theorem rapid_toggle_sends_three_offers:
  "map signalingState (conns micOn) = [HaveLocalOffer]
   \<and> renegotiationOffers ''broadcaster'' micOn = [renegOffer]
   \<and> renegotiationOffers ''broadcaster''
        (snd (disableViewerAudio ''broadcaster'' (Some someOffer) micOn))
       = [renegOffer, renegOffer]
   \<and> renegotiationOffers ''broadcaster'' micOnOffOn = [renegOffer, renegOffer, renegOffer]"
  by (simp add: micOnOffOn_def micOff_eq enableViewerAudio_def Let_def)
     (simp add: micOn_eq viewerWithMic_def viewerJoined_eq initial_def micPc_def
        renegotiate_def getPc_def connAt_def setConn_def createAndSetLocalOffer_def
        renegOffer_def renegotiationOffers_def isRenegotiationFor_def isSendingAudio_def
        pcAddTrack_def isClosed_def Let_def)

text \<open>
  The theorem for C5 at concrete inputs: one offer for the enable and one more for the
  disable with the callback set, none for an enable without a callback, a second audio track
  of a viewer that already has an element, and an audio track that arrives without a stream.
\<close>

theorem one_offer_per_call_one_sink_per_peer_witness:
  "getPc viewerWithMic ''broadcaster'' \<noteq> None \<and> onMessageCallback viewerWithMic
   \<and> fst (enableViewerAudio ''broadcaster'' (Audio, 0) (Some someOffer) viewerWithMic) = Inr ()
   \<and> length (renegotiationOffers ''broadcaster'' micOn) = 1
   \<and> getPc micOn ''broadcaster'' \<noteq> None
   \<and> map_of (viewerAudioTracks micOn) ''broadcaster'' \<noteq> None
   \<and> onMessageCallback micOn
   \<and> fst (disableViewerAudio ''broadcaster'' (Some someOffer) micOn) = Inr ()
   \<and> length (renegotiationOffers ''broadcaster''
        (snd (disableViewerAudio ''broadcaster'' (Some someOffer) micOn))) = 2
   \<and> getPc viewerJoined ''broadcaster'' \<noteq> None \<and> \<not> onMessageCallback viewerJoined
   \<and> fst (enableViewerAudio ''broadcaster'' (Audio, 0) (Some someOffer) viewerJoined) = Inr ()
   \<and> length (renegotiationOffers ''broadcaster''
        (snd (enableViewerAudio ''broadcaster'' (Audio, 0) (Some someOffer) viewerJoined))) = 0
   \<and> sinkInv viewerTalking \<and> localStream viewerTalking \<noteq> None
   \<and> length (sinksOf ''viewer-1'' (onTrack ''viewer-1'' Audio (Some ''viewer-1-mic-2'') viewerTalking)) = 1
   \<and> length (sinksInBody ''viewer-1'' (onTrack ''viewer-1'' Audio (Some ''viewer-1-mic-2'') viewerTalking)) = 1
   \<and> documentBody (onTrack ''viewer-1'' Audio (Some ''viewer-1-mic-2'') viewerTalking)
       = documentBody viewerTalking
   \<and> sinkInv (onTrack ''viewer-1'' Audio None viewerConnected)
   \<and> documentBody (onTrack ''viewer-1'' Audio None viewerConnected) = []
   \<and> length (sinksOf ''viewer-1'' (onTrack ''viewer-1'' Audio None viewerConnected)) = 0"
proof -
  have g0: "getPc viewerWithMic ''broadcaster'' \<noteq> None" by (simp add: viewerWithMic_getPc)
  have cb0: "onMessageCallback viewerWithMic" by (simp add: viewerWithMic_def)
  have ok0: "fst (enableViewerAudio ''broadcaster'' (Audio, 0) (Some someOffer) viewerWithMic) = Inr ()"
    by (simp add: enableViewerAudio_def viewerWithMic_getPc Let_def)
       (simp add: viewerWithMic_def viewerJoined_eq initial_def pcAddTransceiver_def newPc_def
        isSendingAudio_def senderReplaceTrack_def isClosed_def renegotiate_def getPc_def
        connAt_def setConn_def createAndSetLocalOffer_def someOffer_def)
  have r0: "renegotiationOffers ''broadcaster'' viewerWithMic = []"
    by (simp add: renegotiationOffers_def viewerWithMic_def viewerJoined_eq initial_def)
  have g1: "getPc micOn ''broadcaster'' \<noteq> None" by (simp add: micOn_getPc)
  have t1: "map_of (viewerAudioTracks micOn) ''broadcaster'' \<noteq> None" by (simp add: micOn_eq)
  have cb1: "onMessageCallback micOn" by (simp add: micOn_eq viewerWithMic_def)
  have ok1: "fst (disableViewerAudio ''broadcaster'' (Some someOffer) micOn) = Inr ()"
    by (simp add: disableViewerAudio_def micOn_getPc Let_def)
       (simp add: micOn_eq viewerWithMic_def viewerJoined_eq initial_def micPc_def
        pcRemoveTrack_def isClosed_def renegotiate_def getPc_def numeral_2_eq_2
        connAt_def setConn_def createAndSetLocalOffer_def stopTrack_def updTrack_def)
  have r1: "length (renegotiationOffers ''broadcaster'' micOn) = 1"
    by (simp add: micOn_eq renegotiationOffers_def renegOffer_def isRenegotiationFor_def)
  have g2: "getPc viewerJoined ''broadcaster'' \<noteq> None" by (simp add: viewerJoined_getPc)
  have cb2: "\<not> onMessageCallback viewerJoined" using enable_without_callback by simp
  have ok2: "fst (enableViewerAudio ''broadcaster'' (Audio, 0) (Some someOffer) viewerJoined) = Inr ()"
    using enable_without_callback by simp
  have r2: "renegotiationOffers ''broadcaster'' viewerJoined = []"
    by (simp add: renegotiationOffers_def viewerJoined_eq initial_def)
  have inv: "sinkInv viewerTalking"
    by (simp add: sinkInv_def viewerTalking_eq newAudio_def audioElementId_def)
  have ls: "localStream viewerTalking \<noteq> None"
    by (simp add: viewerTalking_eq viewerConnected_eq broadcasterReady_def)
  have ex: "map_of (viewerAudioElements viewerTalking) ''viewer-1'' \<noteq> None"
    by (simp add: viewerTalking_eq)
  have inv3: "sinkInv viewerConnected"
    by (simp add: sinkInv_def viewerConnected_eq broadcasterReady_def initial_def)
  have e3: "viewerAudioElements viewerConnected = [] \<and> documentBody viewerConnected = []"
    by (simp add: viewerConnected_eq broadcasterReady_def initial_def)
  note th = one_offer_per_call_one_sink_per_peer[of viewerWithMic "''broadcaster''" "(Audio, 0)" "Some someOffer"]
  note th1 = one_offer_per_call_one_sink_per_peer[of micOn "''broadcaster''" "(Audio, 0)" "Some someOffer"]
  note th2 = one_offer_per_call_one_sink_per_peer[of viewerTalking "''viewer-1''" "(Audio, 0)" "Some someOffer" False Audio None "''viewer-1''" "''viewer-1-mic-2''"]
  note th3 = one_offer_per_call_one_sink_per_peer[of viewerJoined "''broadcaster''" "(Audio, 0)" "Some someOffer"]
  note th4 = one_offer_per_call_one_sink_per_peer[of viewerConnected "''viewer-1''" "(Audio, 0)" "Some someOffer" False Audio None "''viewer-1''" "''viewer-1-mic-2''"]
  have w0: "length (renegotiationOffers ''broadcaster'' micOn) = 1"
    using th g0 cb0 ok0 r0 by (simp add: micOn_def)
  have w1: "length (renegotiationOffers ''broadcaster''
        (snd (disableViewerAudio ''broadcaster'' (Some someOffer) micOn))) = 2"
    using th1 g1 t1 cb1 ok1 r1 by simp
  have w2: "length (renegotiationOffers ''broadcaster''
        (snd (enableViewerAudio ''broadcaster'' (Audio, 0) (Some someOffer) viewerJoined))) = 0"
    using th3 g2 cb2 ok2 r2 by simp
  have w3: "length (sinksOf ''viewer-1'' (onTrack ''viewer-1'' Audio (Some ''viewer-1-mic-2'') viewerTalking)) = 1
   \<and> length (sinksInBody ''viewer-1'' (onTrack ''viewer-1'' Audio (Some ''viewer-1-mic-2'') viewerTalking)) = 1
   \<and> documentBody (onTrack ''viewer-1'' Audio (Some ''viewer-1-mic-2'') viewerTalking)
       = documentBody viewerTalking"
    using th2 inv ls ex by simp
  have w4: "sinkInv (onTrack ''viewer-1'' Audio None viewerConnected)
   \<and> documentBody (onTrack ''viewer-1'' Audio None viewerConnected) = []
   \<and> length (sinksOf ''viewer-1'' (onTrack ''viewer-1'' Audio None viewerConnected)) = 0"
    using th4 inv3 e3 by (simp add: sinksOf_def)
  show ?thesis
    using g0 cb0 ok0 w0 g1 t1 cb1 ok1 w1 g2 cb2 ok2 w2 inv ls w3 w4 by simp
qed


section \<open>Lemmas on screen share\<close>





lemma isVideoSender_set [simp]: "fst t = Video \<Longrightarrow> isVideoSender (x\<lparr>senderTrack := Some t\<rparr>)"
  by (simp add: isVideoSender_def)









lemma replaceVideoTrack_frame [simp]:
  "peerConnections (replaceVideoTrack t s) = peerConnections s"
  "trackStates (replaceVideoTrack t s) = trackStates s"
  "localStream (replaceVideoTrack t s) = localStream s"
  "screenStream (replaceVideoTrack t s) = screenStream s"
  "length (conns (replaceVideoTrack t s)) = length (conns s)"
  by (simp_all add: replaceVideoTrack_eq)

lemma replaceConnVideo_closed [simp]: "isClosed (replaceConnVideo t pc) = isClosed pc"
  using replaceConnVideo_transceivers_only[of t pc] by (auto simp: isClosed_def)


lemma soleVideoSender_frame:
  "conns s' = conns s \<Longrightarrow> peerConnections s' = peerConnections s
   \<Longrightarrow> soleVideoSender s' h t = soleVideoSender s h t"
  by (simp add: soleVideoSender_def)




lemma isLive_replace [simp]: "isLive (replaceVideoTrack t s) r = isLive s r"
  by (simp add: isLive_def)

lemma isLive_stopTrack [simp]: "isLive (stopTrack r' s) r = (isLive s r \<and> snd r \<noteq> snd r')"
  by (auto simp: isLive_def stopTrack_def updTrack_def nth_list_update)

lemma isLive_cong: "trackStates s' = trackStates s \<Longrightarrow> isLive s' r = isLive s r"
  by (simp add: isLive_def)

lemma isLive_alloc:
  "isLive (snd (allocTracks [k] s)) r = (isLive s r \<or> snd r = length (trackStates s))"
  by (auto simp: isLive_def allocTracks_def nth_append)

lemma allocTracks_one:
  "allocTracks [k] s = ([(k, length (trackStates s))], s\<lparr>trackStates := trackStates s @ [liveTrack]\<rparr>)"
  by (simp add: allocTracks_def liveTrack_def)

lemma stopTrack_frame [simp]:
  "conns (stopTrack r s) = conns s" "peerConnections (stopTrack r s) = peerConnections s"
  "localStream (stopTrack r s) = localStream s" "screenStream (stopTrack r s) = screenStream s"
  "length (trackStates (stopTrack r s)) = length (trackStates s)"
  by (simp_all add: stopTrack_def updTrack_def)




lemma isLive_fields [simp]:
  "isLive (s\<lparr>localStream := x\<rparr>) r = isLive s r"
  "isLive (s\<lparr>screenStream := y\<rparr>) r = isLive s r"
  by (simp_all add: isLive_def)

lemma isLive_append [simp]:
  "isLive (s\<lparr>trackStates := trackStates s @ [liveTrack]\<rparr>) r
     = (isLive s r \<or> snd r = length (trackStates s))"
  by (auto simp: isLive_def nth_append liveTrack_def)


lemma initializeScreenShare_video:
  "initializeScreenShare (Some [Video]) s
     = (Inr [(Video, length (trackStates s))],
        replaceVideoTrack (Video, length (trackStates s))
          (s\<lparr>trackStates := trackStates s @ [liveTrack],
             screenStream := Some [(Video, length (trackStates s))]\<rparr>))"
  by (simp add: initializeScreenShare_def allocTracks_one Let_def firstOf_def getVideoTracks_def)

lemma shareStarted_eq:
  "shareStarted s
     = replaceVideoTrack (Video, length (trackStates s))
          (s\<lparr>trackStates := trackStates s @ [liveTrack],
             screenStream := Some [(Video, length (trackStates s))]\<rparr>)"
  by (simp add: shareStarted_def initializeScreenShare_video)

lemma shareStarted_frame [simp]:
  "localStream (shareStarted s) = localStream s"
  "screenStream (shareStarted s) = Some [(Video, length (trackStates s))]"
  "length (trackStates (shareStarted s)) = Suc (length (trackStates s))"
  "peerConnections (shareStarted s) = peerConnections s"
  by (simp_all add: shareStarted_eq)

lemma shareStarted_live [simp]:
  "isLive (shareStarted s) r = (isLive s r \<or> snd r = length (trackStates s))"
  by (simp add: shareStarted_eq)












lemma allocTracks_conns [simp]: "conns (snd (allocTracks ks s)) = conns s"
  by (simp add: allocTracks_def)


lemma swapLocalVideo_conns [simp]: "conns (swapLocalVideo t ls s) = conns s"
  by (simp add: swapLocalVideo_def split: option.splits)








section \<open>One outbound video sender across a screen share (C8)\<close>





end
